theory Spec2Isabelle
  imports Complex_Main "HOL-Library.Word" "HOL-Library.Multiset"
begin

section \<open>Scalars, counters and enumerations\<close>

text \<open>
  The estimator of \<^verbatim>\<open>MMD.cpp\<close> works on \<^verbatim>\<open>float64_t\<close> accumulators fed with
  \<^verbatim>\<open>float32_t\<close> job results. Both are embedded as \<^typ>\<open>real\<close>: every statement below is
  a statement in exact arithmetic. The term counters are \<^verbatim>\<open>index_t\<close>, Shogun's signed
  32-bit integer; they are embedded as 32-bit words read through \<^const>\<open>sint\<close>. Signed
  overflow is undefined in C++; the word wraps, and every theorem that depends on a counter
  carries the bound under which the counter never leaves its range.
\<close>

type_synonym float64_t = real
type_synonym float32_t = real
type_synonym index_t = "32 word"

definition index_to_real :: "index_t \<Rightarrow> real" where
  "index_to_real c = real_of_int (sint c)"

datatype EStatisticType = ST_UNBIASED_FULL | ST_UNBIASED_INCOMPLETE | ST_BIASED_FULL

datatype EVarianceEstimationMethod = VEM_DIRECT | VEM_PERMUTATION

datatype ENullApproximationMethod =
  NAM_PERMUTATION | NAM_MMD1_GAUSSIAN | NAM_MMD2_SPECTRUM | NAM_MMD2_GAMMA

text \<open>
  \<^verbatim>\<open>KSM_OTHER\<close> stands for every enumerator that the switch of \<^verbatim>\<open>select_kernel\<close> does
  not name (its \<^verbatim>\<open>default\<close> branch).
\<close>

datatype EKernelSelectionMethod =
  KSM_MEDIAN_HEURISTIC | KSM_MAXIMIZE_XVALIDATION | KSM_MAXIMIZE_MMD | KSM_MAXIMIZE_POWER
  | KSM_OTHER

text \<open>Every \<^verbatim>\<open>REQUIRE\<close>, \<^verbatim>\<open>SG_ERROR\<close> and \<^verbatim>\<open>SG_SERROR\<close> of the file is one error value.\<close>

datatype error =
  KernelNotSet
  | KernelIsCustom
  | KernelMatrixFailed
  | NoKernelsSpecified
  | OddNumBlocks nat
  | WeightedNotPossible EKernelSelectionMethod
  | UnsupportedMethod
  | DistanceNotPossible
  | CouldNotFetchSamples
  | AllocationFailed
  | PolicyFailed

section \<open>The online accumulator\<close>

text \<open>
  The update that the source writes inline at every fold
  (\<^verbatim>\<open>delta=x-mean; mean+=delta/counter; counter++\<close>): lines 226-228, 235-237, 305-306,
  318 and 372-374.
\<close>

definition accumulate :: "float64_t \<times> index_t \<Rightarrow> float32_t \<Rightarrow> float64_t \<times> index_t" where
  "accumulate acc x =
     (let (mean, counter) = acc;
          delta = x - mean
      in (mean + delta / index_to_real counter, counter + 1))"

section \<open>External collaborators\<close>

text \<open>
  The features, the kernels, the kernel matrices, the jobs of the \<^verbatim>\<open>mmd\<close> namespace and
  the normalisation rules of the owning test are declared outside \<^verbatim>\<open>MMD.cpp\<close>. They are
  parameters of the model: \<open>'f\<close> are feature blocks, \<open>'k\<close> kernels and \<open>'m\<close> kernel
  matrices.

  A job is a \<^verbatim>\<open>std::function\<close> from a kernel matrix to a scalar. The permutation job
  draws a fresh random permutation each time it is evaluated, so a job of the model also takes
  the number of evaluations already made on that matrix; the deterministic jobs ignore it.
  \<^verbatim>\<open>get_kernel_matrix\<close> stands for cloning the kernel, initialising the clone on the block
  and reading its matrix; \<open>None\<close> is a \<^verbatim>\<open>ShogunException\<close> thrown on the way.
\<close>

type_synonym 'm job = "nat \<Rightarrow> 'm \<Rightarrow> float32_t"

record ('f, 'k, 'm) collaborators =
  create_merged_copy :: "'f \<Rightarrow> 'f \<Rightarrow> 'f"
  kernel_is_custom :: "'k \<Rightarrow> bool"
  get_kernel_matrix :: "'k \<Rightarrow> 'f \<Rightarrow> 'm option"
  UnbiasedFull :: "index_t \<Rightarrow> 'm \<Rightarrow> float32_t"
  UnbiasedIncomplete :: "index_t \<Rightarrow> 'm \<Rightarrow> float32_t"
  BiasedFull :: "index_t \<Rightarrow> 'm \<Rightarrow> float32_t"
  WithinBlockPermutation :: "index_t \<Rightarrow> index_t \<Rightarrow> EStatisticType \<Rightarrow> 'm job"
  get_direct_estimation_method :: "'m \<Rightarrow> float32_t"
  normalize_statistic :: "float64_t \<Rightarrow> float64_t"
  normalize_variance :: "float64_t \<Rightarrow> float64_t"

text \<open>
  A burst (\<^verbatim>\<open>NextSamples\<close>) holds, for each block index, one block of each distribution;
  \<^verbatim>\<open>num_blocks()\<close> is its length and \<^verbatim>\<open>empty()\<close> holds when it has no block.
\<close>

type_synonym 'f NextSamples = "('f \<times> 'f) list"

text \<open>
  Modelled from the spec: the \<^verbatim>\<open>DataManager\<close> is not part of \<^verbatim>\<open>MMD.cpp\<close>. Following
  section 6 of the specification it is a finite, single-pass sequence of bursts that ends with
  an empty burst and starts over only after \<^verbatim>\<open>reset()\<close>; the setters write their field.
\<close>

record 'f DataManager =
  bursts :: "'f NextSamples list"
  next_index :: nat
  started :: bool
  blockwise :: bool
  train_mode :: bool
  train_test_ratio :: float64_t
  blocksize_at :: "nat \<Rightarrow> index_t"

definition dm_start :: "'f DataManager \<Rightarrow> 'f DataManager" where
  "dm_start dm = dm\<lparr>started := True\<rparr>"

definition dm_end :: "'f DataManager \<Rightarrow> 'f DataManager" where
  "dm_end dm = dm\<lparr>started := False\<rparr>"

definition dm_next :: "'f DataManager \<Rightarrow> 'f NextSamples \<times> 'f DataManager" where
  "dm_next dm =
     (if next_index dm < length (bursts dm)
      then (bursts dm ! next_index dm, dm\<lparr>next_index := next_index dm + 1\<rparr>)
      else ([], dm))"

definition dm_reset :: "'f DataManager \<Rightarrow> 'f DataManager" where
  "dm_reset dm = dm\<lparr>next_index := 0\<rparr>"

definition set_blockwise :: "bool \<Rightarrow> 'f DataManager \<Rightarrow> 'f DataManager" where
  "set_blockwise b dm = dm\<lparr>blockwise := b\<rparr>"

definition set_train_mode :: "bool \<Rightarrow> 'f DataManager \<Rightarrow> 'f DataManager" where
  "set_train_mode b dm = dm\<lparr>train_mode := b\<rparr>"

definition set_train_test_ratio :: "float64_t \<Rightarrow> 'f DataManager \<Rightarrow> 'f DataManager" where
  "set_train_test_ratio r dm = dm\<lparr>train_test_ratio := r\<rparr>"

text \<open>
  The kernel manager of the owning test: slot \<open>i\<close> holds a kernel or is null (\<open>None\<close>).
\<close>

type_synonym 'k KernelManager = "nat \<rightharpoonup> 'k"

section \<open>The engine state\<close>

text \<open>
  \<^verbatim>\<open>struct CMMD::Self\<close>. Its three job members are overwritten by
  \<^verbatim>\<open>create_statistic_job\<close> and \<^verbatim>\<open>create_variance_job\<close> at the start of every operation,
  before they are read, so the model returns them from these functions instead of storing
  them. \<^verbatim>\<open>kernel_selection_mgr\<close> is the list of kernels added with \<^verbatim>\<open>add_kernel\<close>.
\<close>

record 'k Self =
  use_gpu :: bool
  num_null_samples :: index_t
  statistic_type :: EStatisticType
  variance_estimation_method :: EVarianceEstimationMethod
  null_approximation_method :: ENullApproximationMethod
  kernel_selection_mgr :: "'k list"

definition Self_init :: "'k Self" where
  "Self_init =
     \<lparr>use_gpu = False, num_null_samples = 250,
      statistic_type = ST_UNBIASED_FULL,
      variance_estimation_method = VEM_DIRECT,
      null_approximation_method = NAM_PERMUTATION,
      kernel_selection_mgr = []\<rparr>"

definition create_statistic_job ::
  "('f, 'k, 'm) collaborators \<Rightarrow> 'f DataManager \<Rightarrow> 'k Self \<Rightarrow> 'm job \<times> 'm job" where
  "create_statistic_job ext dm self =
     (let Bx = blocksize_at dm 0;
          By = blocksize_at dm 1;
          statistic_job =
            (case statistic_type self of
               ST_UNBIASED_FULL \<Rightarrow> (\<lambda>n. UnbiasedFull ext Bx)
             | ST_UNBIASED_INCOMPLETE \<Rightarrow> (\<lambda>n. UnbiasedIncomplete ext Bx)
             | ST_BIASED_FULL \<Rightarrow> (\<lambda>n. BiasedFull ext Bx));
          permutation_job = WithinBlockPermutation ext Bx By (statistic_type self)
      in (statistic_job, permutation_job))"

definition create_variance_job ::
  "('f, 'k, 'm) collaborators \<Rightarrow> 'k Self \<Rightarrow> 'm job \<Rightarrow> 'm job" where
  "create_variance_job ext self permutation_job =
     (case variance_estimation_method self of
        VEM_DIRECT \<Rightarrow> (\<lambda>n. get_direct_estimation_method ext)
      | VEM_PERMUTATION \<Rightarrow> permutation_job)"

definition create_computation_jobs ::
  "('f, 'k, 'm) collaborators \<Rightarrow> 'f DataManager \<Rightarrow> 'k Self \<Rightarrow> 'm job \<times> 'm job \<times> 'm job" where
  "create_computation_jobs ext dm self =
     (let (statistic_job, permutation_job) = create_statistic_job ext dm self;
          variance_job = create_variance_job ext self permutation_job
      in (statistic_job, permutation_job, variance_job))"

definition merge_samples :: "('f, 'k, 'm) collaborators \<Rightarrow> 'f NextSamples \<Rightarrow> 'f list" where
  "merge_samples ext next_burst =
     map (\<lambda>(block_p, block_q). create_merged_copy ext block_p block_q) next_burst"

definition compute_kernel ::
  "('f, 'k, 'm) collaborators \<Rightarrow> 'f list \<Rightarrow> 'k \<Rightarrow> error + 'm list" where
  "compute_kernel ext blocks kern =
     (if kernel_is_custom ext kern then Inl KernelIsCustom
      else (case those (map (get_kernel_matrix ext kern) blocks) of
              None \<Rightarrow> Inl KernelMatrixFailed
            | Some data \<Rightarrow> Inr data))"

text \<open>
  Modelled from the spec: \<^verbatim>\<open>ComputationManager::compute_data_parallel_jobs\<close> is not part
  of \<^verbatim>\<open>MMD.cpp\<close>. By section 4.4 of the specification it returns, for a job, one scalar per
  kernel matrix in block order, and the executor chosen only decides where the job runs.
  The second argument is the number of evaluations already made on the data.
\<close>

definition compute_data_parallel_jobs :: "bool \<Rightarrow> nat \<Rightarrow> 'm job \<Rightarrow> 'm list \<Rightarrow> float32_t list" where
  "compute_data_parallel_jobs gpu n j data = map (j n) data"

definition compute_jobs :: "'k Self \<Rightarrow> nat \<Rightarrow> 'm job \<Rightarrow> 'm list \<Rightarrow> float32_t list" where
  "compute_jobs self n j data =
     (if use_gpu self then compute_data_parallel_jobs True n j data
      else compute_data_parallel_jobs False n j data)"

section \<open>The burst loop\<close>

text \<open>
  The three estimators share the loop
  \<^verbatim>\<open>while (!next_burst.empty()) { body; next_burst=dm.next(); }\<close>. The body either
  raises, and the loop stops with the accumulators as they are at that point, or returns
  the updated accumulators.
\<close>

function while_not_empty ::
  "('a \<Rightarrow> 'f NextSamples \<Rightarrow> error option \<times> 'a) \<Rightarrow> 'a \<Rightarrow> 'f NextSamples \<Rightarrow> 'f DataManager
   \<Rightarrow> error option \<times> 'a \<times> 'f DataManager" where
  "while_not_empty body acc next_burst dm =
     (if next_burst = [] then (None, acc, dm)
      else (case body acc next_burst of
              (Some e, acc') \<Rightarrow> (Some e, acc', dm)
            | (None, acc') \<Rightarrow>
                (case dm_next dm of (next_burst', dm') \<Rightarrow>
                   while_not_empty body acc' next_burst' dm')))"
  by pat_completeness auto
termination
  by (relation "measure (\<lambda>(body, acc, next_burst, dm).
        (length (bursts dm) - next_index dm) + (if next_burst = [] then 0 else 1))")
     (auto simp: dm_next_def split: if_splits)

declare while_not_empty.simps [simp del]

section \<open>Statistic and variance\<close>

record statistic_variance_state =
  statistic :: float64_t
  permuted_samples_statistic :: float64_t
  variance :: float64_t
  statistic_term_counter :: index_t
  variance_term_counter :: index_t

text \<open>Lines 244-247: the fold of one permutation scalar in permutation mode.\<close>

definition accumulate_permutation ::
  "float64_t \<times> float64_t \<times> index_t \<Rightarrow> float32_t \<Rightarrow> float64_t \<times> float64_t \<times> index_t" where
  "accumulate_permutation acc x =
     (let (permuted_samples_statistic, variance, counter) = acc;
          delta = x - permuted_samples_statistic;
          permuted_samples_statistic' = permuted_samples_statistic + delta / index_to_real counter;
          variance' = variance + delta * (x - permuted_samples_statistic')
      in (permuted_samples_statistic', variance', counter + 1))"

text \<open>
  Lines 224-229 and 231-249: the folds of the job results of one burst. In direct mode the
  loop runs over the indices of \<^verbatim>\<open>mmds\<close> and reads \<^verbatim>\<open>vars[i]\<close>; in permutation mode
  it runs over \<^verbatim>\<open>vars\<close>.
\<close>

definition fold_statistic :: "float32_t list \<Rightarrow> statistic_variance_state \<Rightarrow> statistic_variance_state" where
  "fold_statistic mmds st =
     (let (s, c) = fold (\<lambda>x acc. accumulate acc x) mmds (statistic st, statistic_term_counter st)
      in st\<lparr>statistic := s, statistic_term_counter := c\<rparr>)"

definition fold_variance ::
  "EVarianceEstimationMethod \<Rightarrow> float32_t list \<Rightarrow> float32_t list \<Rightarrow> statistic_variance_state
   \<Rightarrow> statistic_variance_state" where
  "fold_variance vem mmds vars st =
     (if vem = VEM_DIRECT
      then (let (v, c) = fold (\<lambda>i acc. accumulate acc (vars ! i)) [0..<length mmds]
                           (variance st, variance_term_counter st)
            in st\<lparr>variance := v, variance_term_counter := c\<rparr>)
      else (let (p, v, c) = fold (\<lambda>x acc. accumulate_permutation acc x) vars
                              (permuted_samples_statistic st, variance st, variance_term_counter st)
            in st\<lparr>permuted_samples_statistic := p, variance := v, variance_term_counter := c\<rparr>))"

definition statistic_variance_burst ::
  "('f, 'k, 'm) collaborators \<Rightarrow> 'k Self \<Rightarrow> 'k \<Rightarrow> 'm job \<Rightarrow> 'm job
   \<Rightarrow> statistic_variance_state \<Rightarrow> 'f NextSamples \<Rightarrow> error option \<times> statistic_variance_state" where
  "statistic_variance_burst ext self kern statistic_job variance_job st next_burst =
     (let blocks = merge_samples ext next_burst
      in case compute_kernel ext blocks kern of
           Inl e \<Rightarrow> (Some e, st)
         | Inr data \<Rightarrow>
             (let mmds = compute_jobs self 0 statistic_job data;
                  vars = compute_jobs self 0 variance_job data
              in (None, fold_variance (variance_estimation_method self) mmds vars
                          (fold_statistic mmds st))))"

definition compute_statistic_variance ::
  "('f, 'k, 'm) collaborators \<Rightarrow> 'k Self \<Rightarrow> 'k KernelManager \<Rightarrow> 'f DataManager
   \<Rightarrow> (error + float64_t \<times> float64_t) \<times> 'f DataManager" where
  "compute_statistic_variance ext self km dm =
     (case km 0 of
        None \<Rightarrow> (Inl KernelNotSet, dm)
      | Some kern \<Rightarrow>
          (let st0 = \<lparr>statistic = 0, permuted_samples_statistic = 0, variance = 0,
                      statistic_term_counter = 1, variance_term_counter = 1\<rparr>;
               (statistic_job, permutation_job, variance_job) = create_computation_jobs ext dm self;
               (next_burst, dm1) = dm_next (dm_start dm)
           in case while_not_empty
                     (statistic_variance_burst ext self kern statistic_job variance_job)
                     st0 next_burst dm1 of
                (Some e, st, dm2) \<Rightarrow> (Inl e, dm2)
              | (None, st, dm2) \<Rightarrow>
                  (Inr (normalize_statistic ext (statistic st),
                        if variance_estimation_method self = VEM_PERMUTATION
                        then normalize_variance ext (variance st) else variance st),
                   dm_end dm2)))"

definition compute_statistic ::
  "('f, 'k, 'm) collaborators \<Rightarrow> 'k Self \<Rightarrow> 'k KernelManager \<Rightarrow> 'f DataManager
   \<Rightarrow> (error + float64_t) \<times> 'f DataManager" where
  "compute_statistic ext self km dm =
     (case compute_statistic_variance ext self km dm of
        (Inl e, dm') \<Rightarrow> (Inl e, dm')
      | (Inr p, dm') \<Rightarrow> (Inr (fst p), dm'))"

definition compute_variance ::
  "('f, 'k, 'm) collaborators \<Rightarrow> 'k Self \<Rightarrow> 'k KernelManager \<Rightarrow> 'f DataManager
   \<Rightarrow> (error + float64_t) \<times> 'f DataManager" where
  "compute_variance ext self km dm =
     (case compute_statistic_variance ext self km dm of
        (Inl e, dm') \<Rightarrow> (Inl e, dm')
      | (Inr p, dm') \<Rightarrow> (Inr (snd p), dm'))"

section \<open>Statistics and Q matrix over a set of kernels\<close>

text \<open>
  The accumulators of \<^verbatim>\<open>compute_statistic_and_Q\<close>: the vector \<^verbatim>\<open>statistic\<close>, the matrix
  \<^verbatim>\<open>Q\<close>, their term counters and the per-kernel job results \<^verbatim>\<open>mmds\<close>. A matrix is a
  function of the index pair.
\<close>

record Q_state =
  statistics :: "float64_t list"
  Q_mat :: "nat \<times> nat \<Rightarrow> float64_t"
  term_counters_statistic :: "index_t list"
  term_counters_Q :: "nat \<times> nat \<Rightarrow> index_t"
  mmds :: "float32_t list list"

text \<open>
  Lines 297-308: the loop over the kernels of the selection set; for kernel \<open>k\<close> the inner
  loop folds \<^verbatim>\<open>mmds[k][i]\<close> for the block indices \<open>i\<close> of the burst.
\<close>

function accumulate_kernels ::
  "('f, 'k, 'm) collaborators \<Rightarrow> 'k Self \<Rightarrow> 'm job \<Rightarrow> nat \<Rightarrow> 'f list \<Rightarrow> nat \<Rightarrow> Q_state
   \<Rightarrow> error option \<times> Q_state" where
  "accumulate_kernels ext self statistic_job num_blocks blocks k st =
     (if k < length (kernel_selection_mgr self)
      then (case compute_kernel ext blocks (kernel_selection_mgr self ! k) of
              Inl e \<Rightarrow> (Some e, st)
            | Inr data \<Rightarrow>
                (let mmds_k = compute_jobs self 0 statistic_job data;
                     (s, c) = fold (\<lambda>i acc. accumulate acc (mmds_k ! i)) [0..<num_blocks]
                                (statistics st ! k, term_counters_statistic st ! k)
                 in accumulate_kernels ext self statistic_job num_blocks blocks (k + 1)
                      (st\<lparr>mmds := (mmds st)[k := mmds_k],
                          statistics := (statistics st)[k := s],
                          term_counters_statistic := (term_counters_statistic st)[k := c]\<rparr>)))
      else (None, st))"
  by pat_completeness auto
termination
  by (relation "measure (\<lambda>(ext, self, statistic_job, num_blocks, blocks, k, st).
        length (kernel_selection_mgr self) - k)") auto

declare accumulate_kernels.simps [simp del]

text \<open>
  Lines 315-319: the loop over the adjacent block pairs \<open>(k, k+1)\<close>, \<open>k\<close> stepping by 2.
  The loop is reached with a burst that is not empty, so \<^verbatim>\<open>num_blocks-1\<close> does not wrap.
\<close>

function accumulate_Q_terms ::
  "float32_t list \<Rightarrow> float32_t list \<Rightarrow> nat \<Rightarrow> nat \<Rightarrow> float64_t \<times> index_t \<Rightarrow> float64_t \<times> index_t" where
  "accumulate_Q_terms mmds_i mmds_j num_blocks k acc =
     (if k < num_blocks - 1
      then accumulate_Q_terms mmds_i mmds_j num_blocks (k + 2)
             (accumulate acc
                ((mmds_i ! k - mmds_i ! (k + 1)) * (mmds_j ! k - mmds_j ! (k + 1))))
      else acc)"
  by pat_completeness auto
termination
  by (relation "measure (\<lambda>(mmds_i, mmds_j, num_blocks, k, acc). num_blocks - k)") auto

declare accumulate_Q_terms.simps [simp del]

definition update_Q_cell :: "nat \<Rightarrow> nat \<Rightarrow> nat \<Rightarrow> Q_state \<Rightarrow> Q_state" where
  "update_Q_cell num_blocks i j st =
     (let (q, c) = accumulate_Q_terms (mmds st ! i) (mmds st ! j) num_blocks 0
                     (Q_mat st (i, j), term_counters_Q st (i, j))
      in st\<lparr>Q_mat := (Q_mat st)((i, j) := q, (j, i) := q),
            term_counters_Q := (term_counters_Q st)((i, j) := c)\<rparr>)"

definition update_Q :: "nat \<Rightarrow> nat \<Rightarrow> Q_state \<Rightarrow> Q_state" where
  "update_Q num_blocks num_kernels st =
     fold (\<lambda>i st. fold (\<lambda>j st. update_Q_cell num_blocks i j st) [0..<Suc i] st)
       [0..<num_kernels] st"

definition statistic_and_Q_burst ::
  "('f, 'k, 'm) collaborators \<Rightarrow> 'k Self \<Rightarrow> 'm job \<Rightarrow> Q_state \<Rightarrow> 'f NextSamples
   \<Rightarrow> error option \<times> Q_state" where
  "statistic_and_Q_burst ext self statistic_job st next_burst =
     (let num_blocks = length next_burst
      in if num_blocks mod 2 \<noteq> 0 then (Some (OddNumBlocks num_blocks), st)
         else (let blocks = merge_samples ext next_burst
               in case accumulate_kernels ext self statistic_job num_blocks blocks 0 st of
                    (Some e, st') \<Rightarrow> (Some e, st')
                  | (None, st') \<Rightarrow>
                      (None, update_Q num_blocks (length (kernel_selection_mgr self)) st')))"

text \<open>
  \<^verbatim>\<open>std::for_each\<close> over a vector. With a callable that takes its argument by value
  (line 330, \<^verbatim>\<open>[this](float64_t val)\<close>) each element is copied into \<^verbatim>\<open>val\<close>, the
  assignment in the body writes the copy, and \<^verbatim>\<open>for_each\<close> drops what the callable
  returns: the vector keeps its elements. With a reference parameter (line 384,
  \<^verbatim>\<open>[this](float64_t& value)\<close>) the assignment writes the element.
\<close>

definition for_each_by_value :: "('a \<Rightarrow> 'a) \<Rightarrow> 'a list \<Rightarrow> 'a list" where
  "for_each_by_value f xs = (let copies = map f xs in xs)"

definition for_each_by_reference :: "('a \<Rightarrow> 'a) \<Rightarrow> 'a list \<Rightarrow> 'a list" where
  "for_each_by_reference f xs = map f xs"

definition Q_init :: "nat \<Rightarrow> Q_state" where
  "Q_init num_kernels =
     \<lparr>statistics = replicate num_kernels 0, Q_mat = (\<lambda>ij. 0),
      term_counters_statistic = replicate num_kernels 1, term_counters_Q = (\<lambda>ij. 1),
      mmds = replicate num_kernels []\<rparr>"

definition compute_statistic_and_Q ::
  "('f, 'k, 'm) collaborators \<Rightarrow> 'k Self \<Rightarrow> 'f DataManager
   \<Rightarrow> (error + float64_t list \<times> (nat \<times> nat \<Rightarrow> float64_t)) \<times> 'f DataManager" where
  "compute_statistic_and_Q ext self dm =
     (let num_kernels = length (kernel_selection_mgr self)
      in if \<not> num_kernels > 0 then (Inl NoKernelsSpecified, dm)
         else (let (statistic_job, permutation_job, variance_job) =
                     create_computation_jobs ext dm self;
                   (next_burst, dm1) = dm_next (dm_start dm)
               in case while_not_empty (statistic_and_Q_burst ext self statistic_job)
                         (Q_init num_kernels) next_burst dm1 of
                    (Some e, st, dm2) \<Rightarrow> (Inl e, dm2)
                  | (None, st, dm2) \<Rightarrow>
                      (Inr (for_each_by_value (normalize_statistic ext) (statistics st),
                            Q_mat st),
                       dm_end dm2)))"

section \<open>Sampling the null distribution\<close>

text \<open>
  Lines 366-376: replicate \<open>j\<close> evaluates the permutation job once more on every kernel
  matrix of the burst and folds the results into its own accumulator.
\<close>

definition accumulate_replicate ::
  "'k Self \<Rightarrow> 'm job \<Rightarrow> 'm list \<Rightarrow> nat \<Rightarrow> float64_t list \<times> index_t list
   \<Rightarrow> float64_t list \<times> index_t list" where
  "accumulate_replicate self permutation_job data j st =
     (let (statistic_v, term_counters) = st;
          mmds_j = compute_jobs self j permutation_job data;
          (s, c) = fold (\<lambda>x acc. accumulate acc x) mmds_j (statistic_v ! j, term_counters ! j)
      in (statistic_v[j := s], term_counters[j := c]))"

definition sample_null_burst ::
  "('f, 'k, 'm) collaborators \<Rightarrow> 'k Self \<Rightarrow> 'k \<Rightarrow> 'm job \<Rightarrow> float64_t list \<times> index_t list
   \<Rightarrow> 'f NextSamples \<Rightarrow> error option \<times> float64_t list \<times> index_t list" where
  "sample_null_burst ext self kern permutation_job st next_burst =
     (let blocks = merge_samples ext next_burst
      in case compute_kernel ext blocks kern of
           Inl e \<Rightarrow> (Some e, st)
         | Inr data \<Rightarrow>
             (None, fold (\<lambda>j st. accumulate_replicate self permutation_job data j st)
                      [0..<nat (sint (num_null_samples self))] st))"

text \<open>
  The two vectors are allocated with \<^verbatim>\<open>num_null_samples\<close> elements. A negative count
  converts to a size beyond \<^verbatim>\<open>max_size()\<close>, so that the constructor of
  \<^verbatim>\<open>term_counters\<close> throws if the allocation of \<^verbatim>\<open>statistic\<close> has not failed before;
  the model raises \<open>AllocationFailed\<close>.
\<close>

definition sample_null ::
  "('f, 'k, 'm) collaborators \<Rightarrow> 'k Self \<Rightarrow> 'k KernelManager \<Rightarrow> 'f DataManager
   \<Rightarrow> (error + float64_t list) \<times> 'f DataManager" where
  "sample_null ext self km dm =
     (case km 0 of
        None \<Rightarrow> (Inl KernelNotSet, dm)
      | Some kern \<Rightarrow>
          if sint (num_null_samples self) < 0 then (Inl AllocationFailed, dm)
          else (let n = nat (sint (num_null_samples self));
                    st0 = (replicate n 0, replicate n 1);
                    (statistic_job, permutation_job) = create_statistic_job ext dm self;
                    (next_burst, dm1) = dm_next (dm_start dm)
                in case while_not_empty (sample_null_burst ext self kern permutation_job)
                          st0 next_burst dm1 of
                     (Some e, st, dm2) \<Rightarrow> (Inl e, dm2)
                   | (None, st, dm2) \<Rightarrow>
                       (Inr (for_each_by_reference (normalize_statistic ext) (fst st)),
                        dm_end dm2)))"

section \<open>Kernel selection\<close>

text \<open>
  The selection policies are external. A policy object keeps the selection set and, where
  the source passes them, the distance, the estimator, the number of runs and the level.
  A policy that was built with the estimator (\<^verbatim>\<open>this\<close>, lines 485-498) may drive it when
  \<^verbatim>\<open>policy->select_kernel()\<close> runs, so \<^verbatim>\<open>policy_select_kernel\<close> receives the engine state,
  the kernel manager and the data manager and returns the last two with the chosen kernel.
  \<^verbatim>\<open>MedianHeuristic\<close> is built from the selection set and the distance only (line 477):
  \<^verbatim>\<open>median_heuristic_select_kernel\<close> has nothing else to read or to change.
  \<^verbatim>\<open>distance_matrix\<close> stands for initialising the Euclidean distance on a merged block and
  reading its matrix into a distance of type \<open>'d\<close> (\<open>None\<close>: the initialisation fails or
  throws). \<^verbatim>\<open>restore_kernel_at\<close> belongs to the kernel manager.
\<close>

datatype ('k, 'd) KernelSelection =
  MedianHeuristic "'k list" 'd
  | MaxXValidation "'k list" index_t float64_t
  | WeightedMaxMeasure "'k list"
  | MaxMeasure "'k list"
  | WeightedMaxTestPower "'k list"
  | MaxTestPower "'k list"

text \<open>The selection set that a policy object keeps.\<close>

fun policy_kernels :: "('k, 'd) KernelSelection \<Rightarrow> 'k list" where
  "policy_kernels (MedianHeuristic kernels distance) = kernels"
| "policy_kernels (MaxXValidation kernels num_run alpha) = kernels"
| "policy_kernels (WeightedMaxMeasure kernels) = kernels"
| "policy_kernels (MaxMeasure kernels) = kernels"
| "policy_kernels (WeightedMaxTestPower kernels) = kernels"
| "policy_kernels (MaxTestPower kernels) = kernels"

record ('f, 'k, 'd) selection_collaborators =
  distance_matrix :: "'f \<Rightarrow> 'd option"
  median_heuristic_select_kernel :: "'k list \<Rightarrow> 'd \<Rightarrow> error + 'k"
  policy_select_kernel ::
    "('k, 'd) KernelSelection \<Rightarrow> 'k Self \<Rightarrow> 'k KernelManager \<Rightarrow> 'f DataManager
     \<Rightarrow> (error + 'k) \<times> 'k KernelManager \<times> 'f DataManager"
  restore_kernel_at :: "nat \<Rightarrow> 'k KernelManager \<Rightarrow> 'k KernelManager"

definition compute_distance ::
  "('f, 'k, 'm) collaborators \<Rightarrow> ('f, 'k, 'd) selection_collaborators \<Rightarrow> 'f DataManager
   \<Rightarrow> (error + 'd) \<times> 'f DataManager" where
  "compute_distance ext sel dm =
     (let blockwise' = blockwise dm;
          (samples, dm1) = dm_next (dm_start (set_blockwise False dm))
      in if samples \<noteq> []
         then (let dm2 = dm_end dm1;
                   (samples_p, samples_q) = samples ! 0
               in case distance_matrix sel (create_merged_copy ext samples_p samples_q) of
                    None \<Rightarrow> (Inl DistanceNotPossible, dm2)
                  | Some distance \<Rightarrow> (Inr distance, set_blockwise blockwise' dm2))
         else (Inl CouldNotFetchSamples, dm_end dm1))"

text \<open>Lines 471-504: the switch that builds the policy.\<close>

definition make_policy ::
  "('f, 'k, 'm) collaborators \<Rightarrow> ('f, 'k, 'd) selection_collaborators \<Rightarrow> 'k Self
   \<Rightarrow> EKernelSelectionMethod \<Rightarrow> bool \<Rightarrow> index_t \<Rightarrow> float64_t \<Rightarrow> 'f DataManager
   \<Rightarrow> (error + ('k, 'd) KernelSelection) \<times> 'f DataManager" where
  "make_policy ext sel self kmethod weighted_kernel num_run alpha dm =
     (case kmethod of
        KSM_MEDIAN_HEURISTIC \<Rightarrow>
          if weighted_kernel then (Inl (WeightedNotPossible KSM_MEDIAN_HEURISTIC), dm)
          else (case compute_distance ext sel dm of
                  (Inl e, dm1) \<Rightarrow> (Inl e, dm1)
                | (Inr distance, dm1) \<Rightarrow>
                    (Inr (MedianHeuristic (kernel_selection_mgr self) distance),
                     dm_reset (set_train_test_ratio 0 dm1)))
      | KSM_MAXIMIZE_XVALIDATION \<Rightarrow>
          if weighted_kernel then (Inl (WeightedNotPossible KSM_MAXIMIZE_XVALIDATION), dm)
          else (Inr (MaxXValidation (kernel_selection_mgr self) num_run alpha), dm)
      | KSM_MAXIMIZE_MMD \<Rightarrow>
          if weighted_kernel then (Inr (WeightedMaxMeasure (kernel_selection_mgr self)), dm)
          else (Inr (MaxMeasure (kernel_selection_mgr self)), dm)
      | KSM_MAXIMIZE_POWER \<Rightarrow>
          if weighted_kernel then (Inr (WeightedMaxTestPower (kernel_selection_mgr self)), dm)
          else (Inr (MaxTestPower (kernel_selection_mgr self)), dm)
      | KSM_OTHER \<Rightarrow> (Inl UnsupportedMethod, dm))"

text \<open>
  Line 507, \<^verbatim>\<open>policy->select_kernel()\<close>: the virtual call, with the kernel manager and the
  data manager as the policy leaves them.
\<close>

definition policy_select ::
  "('f, 'k, 'd) selection_collaborators \<Rightarrow> ('k, 'd) KernelSelection \<Rightarrow> 'k Self
   \<Rightarrow> 'k KernelManager \<Rightarrow> 'f DataManager
   \<Rightarrow> (error + 'k) \<times> 'k KernelManager \<times> 'f DataManager" where
  "policy_select sel policy self km dm =
     (case policy of
        MedianHeuristic kernels distance \<Rightarrow>
          (median_heuristic_select_kernel sel kernels distance, km, dm)
      | MaxXValidation kernels num_run alpha \<Rightarrow> policy_select_kernel sel policy self km dm
      | WeightedMaxMeasure kernels \<Rightarrow> policy_select_kernel sel policy self km dm
      | MaxMeasure kernels \<Rightarrow> policy_select_kernel sel policy self km dm
      | WeightedMaxTestPower kernels \<Rightarrow> policy_select_kernel sel policy self km dm
      | MaxTestPower kernels \<Rightarrow> policy_select_kernel sel policy self km dm)"

definition select_kernel ::
  "('f, 'k, 'm) collaborators \<Rightarrow> ('f, 'k, 'd) selection_collaborators \<Rightarrow> 'k Self
   \<Rightarrow> EKernelSelectionMethod \<Rightarrow> bool \<Rightarrow> float64_t \<Rightarrow> index_t \<Rightarrow> float64_t
   \<Rightarrow> 'k KernelManager \<Rightarrow> 'f DataManager
   \<Rightarrow> error option \<times> 'k KernelManager \<times> 'f DataManager" where
  "select_kernel ext sel self kmethod weighted_kernel ratio num_run alpha km dm =
     (let dm1 = set_train_mode True (set_train_test_ratio ratio dm)
      in case make_policy ext sel self kmethod weighted_kernel num_run alpha dm1 of
           (Inl e, dm2) \<Rightarrow> (Some e, km, dm2)
         | (Inr policy, dm2) \<Rightarrow>
             (case policy_select sel policy self km dm2 of
                (Inl e, km1, dm3) \<Rightarrow> (Some e, km1, dm3)
              | (Inr selected, km1, dm3) \<Rightarrow>
                  (None, restore_kernel_at sel 0 (km1(0 \<mapsto> selected)),
                   set_train_mode False dm3)))"

section \<open>Configuration\<close>

definition add_kernel :: "'k \<Rightarrow> 'k Self \<Rightarrow> 'k Self" where
  "add_kernel kern self = self\<lparr>kernel_selection_mgr := kernel_selection_mgr self @ [kern]\<rparr>"

definition set_num_null_samples :: "index_t \<Rightarrow> 'k Self \<Rightarrow> 'k Self" where
  "set_num_null_samples null_samples self = self\<lparr>num_null_samples := null_samples\<rparr>"

definition get_num_null_samples :: "'k Self \<Rightarrow> index_t" where
  "get_num_null_samples self = num_null_samples self"

definition set_use_gpu :: "bool \<Rightarrow> 'k Self \<Rightarrow> 'k Self" where
  "set_use_gpu gpu self = self\<lparr>use_gpu := gpu\<rparr>"

definition get_use_gpu :: "'k Self \<Rightarrow> bool" where
  "get_use_gpu self = use_gpu self"

definition set_statistic_type :: "EStatisticType \<Rightarrow> 'k Self \<Rightarrow> 'k Self" where
  "set_statistic_type stype self = self\<lparr>statistic_type := stype\<rparr>"

definition get_statistic_type :: "'k Self \<Rightarrow> EStatisticType" where
  "get_statistic_type self = statistic_type self"

definition set_variance_estimation_method :: "EVarianceEstimationMethod \<Rightarrow> 'k Self \<Rightarrow> 'k Self" where
  "set_variance_estimation_method vmethod self = self\<lparr>variance_estimation_method := vmethod\<rparr>"

definition get_variance_estimation_method :: "'k Self \<Rightarrow> EVarianceEstimationMethod" where
  "get_variance_estimation_method self = variance_estimation_method self"

definition set_null_approximation_method :: "ENullApproximationMethod \<Rightarrow> 'k Self \<Rightarrow> 'k Self" where
  "set_null_approximation_method nmethod self = self\<lparr>null_approximation_method := nmethod\<rparr>"

definition get_null_approximation_method :: "'k Self \<Rightarrow> ENullApproximationMethod" where
  "get_null_approximation_method self = null_approximation_method self"

text \<open>A call of one of the configuration methods of \<^verbatim>\<open>CMMD\<close>, and a sequence of calls.\<close>

datatype 'k config_call =
  Call_set_num_null_samples index_t
  | Call_use_gpu bool
  | Call_set_statistic_type EStatisticType
  | Call_set_variance_estimation_method EVarianceEstimationMethod
  | Call_set_null_approximation_method ENullApproximationMethod
  | Call_add_kernel 'k

fun run_call :: "'k config_call \<Rightarrow> 'k Self \<Rightarrow> 'k Self" where
  "run_call (Call_set_num_null_samples n) self = set_num_null_samples n self"
| "run_call (Call_use_gpu b) self = set_use_gpu b self"
| "run_call (Call_set_statistic_type t) self = set_statistic_type t self"
| "run_call (Call_set_variance_estimation_method v) self = set_variance_estimation_method v self"
| "run_call (Call_set_null_approximation_method n) self = set_null_approximation_method n self"
| "run_call (Call_add_kernel k) self = add_kernel k self"

definition run_calls :: "'k config_call list \<Rightarrow> 'k Self \<Rightarrow> 'k Self" where
  "run_calls calls self = fold run_call calls self"

section \<open>Reference notions\<close>

text \<open>The arithmetic mean of a sequence, the reference the accumulator is compared with.\<close>

definition arith_mean :: "real list \<Rightarrow> real" where
  "arith_mean xs = (if xs = [] then 0 else sum_list xs / real (length xs))"

text \<open>
  The bursts that one pass over the stream delivers before the stream reports an empty
  burst, and the scalars that a job returns on the blocks of these bursts, in block order.
\<close>

definition pending_bursts :: "'f DataManager \<Rightarrow> 'f NextSamples list" where
  "pending_bursts dm = takeWhile (\<lambda>b. b \<noteq> []) (drop (next_index dm) (bursts dm))"

definition burst_values ::
  "('f, 'k, 'm) collaborators \<Rightarrow> 'k \<Rightarrow> ('m \<Rightarrow> float32_t) \<Rightarrow> 'f NextSamples \<Rightarrow> float32_t list" where
  "burst_values ext kern j next_burst =
     map (\<lambda>(block_p, block_q).
            j (the (get_kernel_matrix ext kern (create_merged_copy ext block_p block_q))))
       next_burst"

definition stream_values ::
  "('f, 'k, 'm) collaborators \<Rightarrow> 'k \<Rightarrow> ('m \<Rightarrow> float32_t) \<Rightarrow> 'f DataManager \<Rightarrow> float32_t list" where
  "stream_values ext kern j dm = concat (map (burst_values ext kern j) (pending_bursts dm))"

text \<open>The value the online accumulator holds after a sequence, from its initial state.\<close>

definition online_mean :: "float32_t list \<Rightarrow> float64_t" where
  "online_mean xs = fst (fold (\<lambda>x acc. accumulate acc x) xs (0, 1))"

text \<open>
  The burst loop seen from its accumulators: the body folded over a list of bursts, stopping
  at the first error.
\<close>

fun fold_bursts ::
  "('a \<Rightarrow> 'f NextSamples \<Rightarrow> error option \<times> 'a) \<Rightarrow> 'a \<Rightarrow> 'f NextSamples list \<Rightarrow> error option \<times> 'a" where
  "fold_bursts body acc [] = (None, acc)"
| "fold_bursts body acc (b # bs) =
     (case body acc b of
        (Some e, acc') \<Rightarrow> (Some e, acc')
      | (None, acc') \<Rightarrow> fold_bursts body acc' bs)"

text \<open>
  The sum of the cross terms of the one-pass rule: term \<open>i\<close> is the product of the
  deviations of the \<open>i\<close>-th scalar from the mean of the scalars before it and from the
  mean of the scalars up to it.
\<close>

definition one_pass_variance_sum :: "float32_t list \<Rightarrow> float64_t" where
  "one_pass_variance_sum vs =
     sum_list (map (\<lambda>i. (vs ! i - arith_mean (take i vs)) * (vs ! i - arith_mean (take (Suc i) vs)))
                [0..<length vs])"

text \<open>
  The last value that a sequence of calls passes to one setter, or the default when the
  sequence does not call that setter; \<open>arg\<close> reads the argument of a call of the setter.
\<close>

definition last_set :: "('c \<Rightarrow> 'v option) \<Rightarrow> 'c list \<Rightarrow> 'v \<Rightarrow> 'v" where
  "last_set arg calls dflt =
     (case List.map_filter arg calls of [] \<Rightarrow> dflt | v # vs \<Rightarrow> last (v # vs))"

fun arg_num_null_samples :: "'k config_call \<Rightarrow> index_t option" where
  "arg_num_null_samples (Call_set_num_null_samples n) = Some n"
| "arg_num_null_samples c = None"

fun arg_use_gpu :: "'k config_call \<Rightarrow> bool option" where
  "arg_use_gpu (Call_use_gpu b) = Some b"
| "arg_use_gpu c = None"

fun arg_statistic_type :: "'k config_call \<Rightarrow> EStatisticType option" where
  "arg_statistic_type (Call_set_statistic_type t) = Some t"
| "arg_statistic_type c = None"

fun arg_variance_estimation_method :: "'k config_call \<Rightarrow> EVarianceEstimationMethod option" where
  "arg_variance_estimation_method (Call_set_variance_estimation_method v) = Some v"
| "arg_variance_estimation_method c = None"

fun arg_null_approximation_method :: "'k config_call \<Rightarrow> ENullApproximationMethod option" where
  "arg_null_approximation_method (Call_set_null_approximation_method n) = Some n"
| "arg_null_approximation_method c = None"

text \<open>
  The differences of the adjacent pairs \<open>(2t, 2t+1)\<close> of a sequence of per-block scalars,
  the products of the differences of two kernels on one burst, and these products over all
  bursts of the stream.
\<close>

definition pair_differences :: "float32_t list \<Rightarrow> float32_t list" where
  "pair_differences m = map (\<lambda>t. m ! (2 * t) - m ! (2 * t + 1)) [0..<length m div 2]"

definition Q_terms :: "float32_t list \<Rightarrow> float32_t list \<Rightarrow> float64_t list" where
  "Q_terms mmds_i mmds_j = map2 (*) (pair_differences mmds_i) (pair_differences mmds_j)"

definition stream_Q_terms ::
  "('f, 'k, 'm) collaborators \<Rightarrow> ('m \<Rightarrow> float32_t) \<Rightarrow> 'k \<Rightarrow> 'k \<Rightarrow> 'f DataManager \<Rightarrow> float64_t list" where
  "stream_Q_terms ext j kernel_i kernel_j dm =
     concat (map (\<lambda>b. Q_terms (burst_values ext kernel_i j b) (burst_values ext kernel_j j b))
               (pending_bursts dm))"

text \<open>The differences of one kernel over the adjacent pairs of all bursts of the stream.\<close>

definition stream_pair_differences ::
  "('f, 'k, 'm) collaborators \<Rightarrow> ('m \<Rightarrow> float32_t) \<Rightarrow> 'k \<Rightarrow> 'f DataManager \<Rightarrow> float32_t list" where
  "stream_pair_differences ext j kern dm =
     concat (map (\<lambda>b. pair_differences (burst_values ext kern j b)) (pending_bursts dm))"

text \<open>
  The accumulator and counter of cell \<open>(i, j)\<close> after the adjacent pairs of a burst of
  \<open>num_blocks\<close> blocks have been folded into it.
\<close>

definition Q_cell_result :: "nat \<Rightarrow> Q_state \<Rightarrow> nat \<Rightarrow> nat \<Rightarrow> float64_t \<times> index_t" where
  "Q_cell_result num_blocks st i j =
     accumulate_Q_terms (mmds st ! i) (mmds st ! j) num_blocks 0
       (Q_mat st (i, j), term_counters_Q st (i, j))"

section \<open>A concrete instance\<close>

text \<open>
  A small instance of the external collaborators on which the functions can be evaluated:
  a block is a number, merging adds the two blocks, kernel \<open>k\<close> scales the merged block by
  \<open>k\<close> (kernel 99 is a custom kernel, and no kernel has a matrix for a negative block),
  the three statistic jobs read the matrix and add 0, 1 or 2, the \<open>n\<close>-th evaluation of
  the permutation job adds \<open>n\<close>, the direct variance job squares, and the normalisations
  multiply by 2 and by 3.
\<close>

definition ext_example :: "(real, nat, real) collaborators" where
  "ext_example =
     \<lparr>create_merged_copy = (\<lambda>p q. p + q),
      kernel_is_custom = (\<lambda>k. k = 99),
      get_kernel_matrix = (\<lambda>k f. if f < 0 then None else Some (real k * f)),
      UnbiasedFull = (\<lambda>Bx m. m),
      UnbiasedIncomplete = (\<lambda>Bx m. m + 1),
      BiasedFull = (\<lambda>Bx m. m + 2),
      WithinBlockPermutation = (\<lambda>Bx By t n m. m + real n),
      get_direct_estimation_method = (\<lambda>m. m * m),
      normalize_statistic = (\<lambda>x. 2 * x),
      normalize_variance = (\<lambda>x. 3 * x)\<rparr>"

definition dm_example :: "real NextSamples list \<Rightarrow> real DataManager" where
  "dm_example bs =
     \<lparr>bursts = bs, next_index = 0, started = False, blockwise = True, train_mode = False,
      train_test_ratio = 0, blocksize_at = (\<lambda>i. 2)\<rparr>"

text \<open>
  Selection collaborators for the instance: the distance of a merged block is the block, the
  median heuristic selects the first kernel of its selection set, every other policy selects
  the last kernel of its selection set and touches neither the kernel manager nor the data
  manager, a policy with an empty selection set fails, and restoring a kernel slot changes
  nothing.
\<close>

definition sel_example :: "(real, nat, real) selection_collaborators" where
  "sel_example =
     \<lparr>distance_matrix = (\<lambda>f. Some f),
      median_heuristic_select_kernel =
        (\<lambda>kernels distance. case kernels of [] \<Rightarrow> Inl PolicyFailed | k # ks \<Rightarrow> Inr k),
      policy_select_kernel =
        (\<lambda>policy self km dm.
           (case policy_kernels policy of [] \<Rightarrow> Inl PolicyFailed | k # ks \<Rightarrow> Inr (last (k # ks)),
            km, dm)),
      restore_kernel_at = (\<lambda>i km. km)\<rparr>"

section \<open>Properties of the online accumulator\<close>

lemma index_to_real_of_nat:
  assumes "n < 2 ^ 31"
  shows "index_to_real (of_nat n) = real n"
proof -
  have "sint (of_nat n :: 32 word) = int n"
    using assms by (simp add: signed_of_nat signed_take_bit_int_eq_self)
  then show ?thesis by (simp add: index_to_real_def)
qed

lemma mean_step:
  fixes s x n :: real
  assumes "0 < n"
  shows "(s + x) / (n + 1) = s / n + (x - s / n) / (n + 1)"
proof -
  define m where "m = s / n"
  have n: "n \<noteq> 0" "n + 1 \<noteq> 0" using assms by auto
  have s: "s = m * n" using n by (simp add: m_def)
  have e1: "(m * (n + 1) + (x - m)) / (n + 1) = m + (x - m) / (n + 1)"
    using n by (simp add: add_divide_distrib)
  have e2: "m * (n + 1) + (x - m) = s + x"
    by (simp add: s algebra_simps)
  have "(s + x) / (n + 1) = (m * (n + 1) + (x - m)) / (n + 1)"
    by (simp only: e2)
  also have "\<dots> = m + (x - m) / (n + 1)" by (rule e1)
  finally show ?thesis unfolding m_def .
qed

lemma arith_mean_snoc:
  "arith_mean (ys @ [x]) = arith_mean ys + (x - arith_mean ys) / (real (length ys) + 1)"
proof (cases "ys = []")
  case True
  then show ?thesis by (simp add: arith_mean_def)
next
  case False
  then have "0 < real (length ys)" by simp
  from mean_step [OF this, of "sum_list ys" x] show ?thesis
    by (simp add: arith_mean_def False add.commute)
qed

lemma index_succ: "(of_nat (Suc n) :: index_t) + 1 = of_nat (Suc (Suc n))"
  by simp

lemma accumulate_step:
  assumes "Suc (length ys) < 2 ^ 31"
  shows "accumulate (arith_mean ys, of_nat (Suc (length ys))) x
         = (arith_mean (ys @ [x]), of_nat (Suc (length (ys @ [x]))))"
proof -
  have "index_to_real (of_nat (Suc (length ys))) = real (length ys) + 1"
    using index_to_real_of_nat [OF assms] by simp
  then show ?thesis
    unfolding accumulate_def Let_def prod.case arith_mean_snoc index_succ by simp
qed

lemma fold_accumulate:
  assumes "length ys + length xs < 2 ^ 31 - 1"
  shows "fold (\<lambda>x acc. accumulate acc x) xs (arith_mean ys, of_nat (Suc (length ys)))
         = (arith_mean (ys @ xs), of_nat (Suc (length (ys @ xs))))"
  using assms
proof (induction xs arbitrary: ys)
  case Nil
  then show ?case by simp
next
  case (Cons x xs)
  have b: "Suc (length ys) < 2 ^ 31" using Cons.prems by simp
  have c: "length (ys @ [x]) + length xs < 2 ^ 31 - 1" using Cons.prems by simp
  show ?case
    using Cons.IH [OF c] accumulate_step [OF b, of x] by simp
qed

lemma online_mean_eq:
  assumes "length xs < 2 ^ 31 - 1"
  shows "online_mean xs = arith_mean xs"
proof -
  have "fold (\<lambda>x acc. accumulate acc x) xs (arith_mean [], of_nat (Suc (length ([]::real list))))
        = (arith_mean ([] @ xs), of_nat (Suc (length ([] @ xs))))"
    by (rule fold_accumulate) (use assms in simp)
  then show ?thesis by (simp add: online_mean_def arith_mean_def)
qed

lemma arith_mean_mset:
  assumes "mset ys = mset xs"
  shows "arith_mean ys = arith_mean xs"
proof -
  have "sum_list ys = sum_list xs"
    using assms by (metis sum_mset_sum_list)
  moreover have "length ys = length xs"
    using assms by (rule mset_eq_length)
  moreover have "ys = [] \<longleftrightarrow> xs = []"
    using assms by (metis mset_zero_iff)
  ultimately show ?thesis by (simp add: arith_mean_def)
qed

section \<open>Properties of the burst loop\<close>

lemma those_Some_map_the: "those xs = Some ys \<Longrightarrow> ys = map the xs"
  by (induction xs arbitrary: ys) (auto split: option.splits)

lemma compute_kernel_Inr:
  assumes "compute_kernel ext blocks kern = Inr data"
  shows "data = map (\<lambda>b. the (get_kernel_matrix ext kern b)) blocks"
  using assms those_Some_map_the [of "map (get_kernel_matrix ext kern) blocks" data]
  by (auto simp: compute_kernel_def comp_def split: if_splits option.splits)

lemma compute_jobs_map: "compute_jobs self n j data = map (j n) data"
  by (simp add: compute_jobs_def compute_data_parallel_jobs_def)

lemma job_values:
  assumes "compute_kernel ext (merge_samples ext b) kern = Inr data"
  shows "compute_jobs self n j data = burst_values ext kern (j n) b"
  unfolding compute_jobs_map compute_kernel_Inr [OF assms]
  by (simp add: merge_samples_def burst_values_def comp_def case_prod_unfold)

lemma takeWhile_nth_drop:
  assumes "i < length xs"
  shows "takeWhile P (xs ! i # drop (Suc i) xs) = takeWhile P (drop i xs)"
  using assms by (simp only: Cons_nth_drop_Suc)

lemma dm_next_pending:
  assumes "dm_next dm = (nb, dm1)"
  shows "takeWhile (\<lambda>b. b \<noteq> []) (nb # drop (next_index dm1) (bursts dm1))
         = takeWhile (\<lambda>b. b \<noteq> []) (drop (next_index dm) (bursts dm))"
proof (cases "next_index dm < length (bursts dm)")
  case True
  then have e: "nb = bursts dm ! next_index dm" "next_index dm1 = Suc (next_index dm)"
    "bursts dm1 = bursts dm"
    using assms by (auto simp: dm_next_def)
  show ?thesis unfolding e by (rule takeWhile_nth_drop [OF True])
next
  case False
  then have "nb = []" "dm1 = dm" using assms by (auto simp: dm_next_def)
  then show ?thesis using False by simp
qed

lemma while_not_empty_fold_bursts:
  "while_not_empty body acc nb dm = (r, acc', dm') \<Longrightarrow>
   fold_bursts body acc (takeWhile (\<lambda>b. b \<noteq> []) (nb # drop (next_index dm) (bursts dm)))
   = (r, acc')"
proof (induction body acc nb dm rule: while_not_empty.induct)
  case (1 body acc next_burst dm)
  show ?case
  proof (cases "next_burst = []")
    case True
    with "1.prems" show ?thesis by (simp add: while_not_empty.simps [of body acc "[]" dm])
  next
    case False
    note w0 = "1.prems" [unfolded while_not_empty.simps [of body acc next_burst dm]]
    obtain e a where b: "body acc next_burst = (e, a)" by (cases "body acc next_burst")
    show ?thesis
    proof (cases e)
      case (Some err)
      with w0 False b show ?thesis by auto
    next
      case None
      obtain nb' dm1 where n: "dm_next dm = (nb', dm1)" by (cases "dm_next dm")
      have w: "while_not_empty body a nb' dm1 = (r, acc', dm')"
        using w0 False b None n by simp
      have ih: "fold_bursts body a (takeWhile (\<lambda>b. b \<noteq> []) (nb' # drop (next_index dm1) (bursts dm1)))
                = (r, acc')"
        using "1.IH" [OF False b [symmetric] None n [symmetric] w] .
      have d: "takeWhile (\<lambda>b. b \<noteq> []) (nb' # drop (next_index dm1) (bursts dm1))
               = takeWhile (\<lambda>b. b \<noteq> []) (drop (next_index dm) (bursts dm))"
        by (rule dm_next_pending [OF n])
      have ih': "fold_bursts body a (takeWhile (\<lambda>b. b \<noteq> []) (drop (next_index dm) (bursts dm)))
                 = (r, acc')"
        using ih unfolding d .
      show ?thesis using ih' False b None by simp
    qed
  qed
qed

lemma first_burst:
  assumes "dm_next (dm_start dm) = (nb, dm1)"
  shows "takeWhile (\<lambda>b. b \<noteq> []) (nb # drop (next_index dm1) (bursts dm1)) = pending_bursts dm"
  using dm_next_pending [OF assms] by (simp add: pending_bursts_def dm_start_def)

section \<open>Properties of the statistic and variance folds\<close>

lemma upt_Suc_shift: "[0..<Suc n] = 0 # map Suc [0..<n]"
  by (simp add: upt_conv_Cons map_Suc_upt del: upt_Suc)

lemma accumulate_permutation_step:
  assumes "Suc (length ys) < 2 ^ 31"
  shows "accumulate_permutation (arith_mean ys, V, of_nat (Suc (length ys))) x
         = (arith_mean (ys @ [x]), V + (x - arith_mean ys) * (x - arith_mean (ys @ [x])),
            of_nat (Suc (length (ys @ [x]))))"
proof -
  have "index_to_real (of_nat (Suc (length ys))) = real (length ys) + 1"
    using index_to_real_of_nat [OF assms] by simp
  then show ?thesis
    unfolding accumulate_permutation_def Let_def prod.case arith_mean_snoc index_succ by simp
qed

lemma fold_accumulate_permutation:
  assumes "length ys + length xs < 2 ^ 31 - 1"
  shows "fold (\<lambda>x acc. accumulate_permutation acc x) xs (arith_mean ys, V, of_nat (Suc (length ys)))
         = (arith_mean (ys @ xs),
            V + sum_list (map (\<lambda>i. (xs ! i - arith_mean (ys @ take i xs))
                                    * (xs ! i - arith_mean (ys @ take (Suc i) xs)))
                            [0..<length xs]),
            of_nat (Suc (length (ys @ xs))))"
  using assms
proof (induction xs arbitrary: ys V)
  case Nil
  then show ?case by simp
next
  case (Cons x xs)
  have b: "Suc (length ys) < 2 ^ 31" using Cons.prems by simp
  have c: "length (ys @ [x]) + length xs < 2 ^ 31 - 1" using Cons.prems by simp
  show ?case
    using Cons.IH [OF c, of "V + (x - arith_mean ys) * (x - arith_mean (ys @ [x]))"]
      accumulate_permutation_step [OF b, of V x]
    by (simp add: upt_Suc_shift comp_def del: upt_Suc)
qed

lemma one_pass_variance:
  assumes "length xs < 2 ^ 31 - 1"
  shows "fold (\<lambda>x acc. accumulate_permutation acc x) xs (0, 0, 1)
         = (arith_mean xs, one_pass_variance_sum xs, of_nat (Suc (length xs)))"
proof -
  have "fold (\<lambda>x acc. accumulate_permutation acc x) xs
          (arith_mean [], 0, of_nat (Suc (length ([]::real list))))
        = (arith_mean ([] @ xs),
            0 + sum_list (map (\<lambda>i. (xs ! i - arith_mean ([] @ take i xs))
                                    * (xs ! i - arith_mean ([] @ take (Suc i) xs)))
                            [0..<length xs]),
            of_nat (Suc (length ([] @ xs))))"
    by (rule fold_accumulate_permutation) (use assms in simp)
  then show ?thesis by (simp add: one_pass_variance_sum_def arith_mean_def)
qed


lemma fold_statistic_fields:
  "(statistic (fold_statistic xs st), statistic_term_counter (fold_statistic xs st))
     = fold (\<lambda>x acc. accumulate acc x) xs (statistic st, statistic_term_counter st)"
  "permuted_samples_statistic (fold_statistic xs st) = permuted_samples_statistic st"
  "variance (fold_statistic xs st) = variance st"
  "variance_term_counter (fold_statistic xs st) = variance_term_counter st"
  by (simp_all add: fold_statistic_def case_prod_unfold Let_def)

lemma fold_variance_fields:
  "statistic (fold_variance vem ms xs st) = statistic st"
  "statistic_term_counter (fold_variance vem ms xs st) = statistic_term_counter st"
  by (simp_all add: fold_variance_def case_prod_unfold Let_def)

lemma fold_variance_permutation:
  assumes "vem \<noteq> VEM_DIRECT"
  shows "(permuted_samples_statistic (fold_variance vem ms xs st),
          variance (fold_variance vem ms xs st),
          variance_term_counter (fold_variance vem ms xs st))
         = fold (\<lambda>x acc. accumulate_permutation acc x) xs
             (permuted_samples_statistic st, variance st, variance_term_counter st)"
  using assms by (simp add: fold_variance_def case_prod_unfold Let_def)

lemma statistic_variance_burst_None:
  assumes "statistic_variance_burst ext self kern sj vj st b = (None, st')"
  shows "st' = fold_variance (variance_estimation_method self)
                 (burst_values ext kern (sj 0) b) (burst_values ext kern (vj 0) b)
                 (fold_statistic (burst_values ext kern (sj 0) b) st)"
proof (cases "compute_kernel ext (merge_samples ext b) kern")
  case (Inl e)
  with assms show ?thesis by (simp add: statistic_variance_burst_def)
next
  case (Inr data)
  with assms show ?thesis
    by (simp add: statistic_variance_burst_def job_values [OF Inr] Let_def)
qed

lemma fold_bursts_statistic:
  assumes "fold_bursts (statistic_variance_burst ext self kern sj vj) st bs = (None, st')"
  shows "(statistic st', statistic_term_counter st')
         = fold (\<lambda>x acc. accumulate acc x) (concat (map (burst_values ext kern (sj 0)) bs))
             (statistic st, statistic_term_counter st)"
  using assms
proof (induction bs arbitrary: st)
  case Nil
  then show ?case by simp
next
  case (Cons b bs)
  obtain e st1 where b: "statistic_variance_burst ext self kern sj vj st b = (e, st1)"
    by (cases "statistic_variance_burst ext self kern sj vj st b")
  with Cons.prems have e: "e = None" by (cases e) auto
  with Cons.prems b have r: "fold_bursts (statistic_variance_burst ext self kern sj vj) st1 bs = (None, st')"
    by simp
  have "(statistic st1, statistic_term_counter st1)
        = fold (\<lambda>x acc. accumulate acc x) (burst_values ext kern (sj 0) b)
            (statistic st, statistic_term_counter st)"
    using statistic_variance_burst_None [OF b [unfolded e]]
    by (simp add: fold_variance_fields fold_statistic_fields)
  with Cons.IH [OF r] show ?case by simp
qed

lemma fold_bursts_permutation:
  assumes "fold_bursts (statistic_variance_burst ext self kern sj vj) st bs = (None, st')"
    and "variance_estimation_method self \<noteq> VEM_DIRECT"
  shows "(permuted_samples_statistic st', variance st', variance_term_counter st')
         = fold (\<lambda>x acc. accumulate_permutation acc x)
             (concat (map (burst_values ext kern (vj 0)) bs))
             (permuted_samples_statistic st, variance st, variance_term_counter st)"
  using assms(1)
proof (induction bs arbitrary: st)
  case Nil
  then show ?case by simp
next
  case (Cons b bs)
  obtain e st1 where b: "statistic_variance_burst ext self kern sj vj st b = (e, st1)"
    by (cases "statistic_variance_burst ext self kern sj vj st b")
  with Cons.prems have e: "e = None" by (cases e) auto
  with Cons.prems b have r: "fold_bursts (statistic_variance_burst ext self kern sj vj) st1 bs = (None, st')"
    by simp
  have "(permuted_samples_statistic st1, variance st1, variance_term_counter st1)
        = fold (\<lambda>x acc. accumulate_permutation acc x) (burst_values ext kern (vj 0) b)
            (permuted_samples_statistic st, variance st, variance_term_counter st)"
    using statistic_variance_burst_None [OF b [unfolded e]]
      fold_variance_permutation [OF assms(2)]
    by (simp add: fold_statistic_fields)
  with Cons.IH [OF r] show ?case by simp
qed

text \<open>What a successful run of \<^verbatim>\<open>compute_statistic_variance\<close> leaves in its accumulators.\<close>

lemma compute_statistic_variance_Inr:
  assumes "fst (compute_statistic_variance ext self km dm) = Inr (s, v)"
    and "km 0 = Some kern"
  obtains st where
    "fold_bursts (statistic_variance_burst ext self kern
        (fst (create_computation_jobs ext dm self))
        (snd (snd (create_computation_jobs ext dm self))))
       \<lparr>statistic = 0, permuted_samples_statistic = 0, variance = 0,
        statistic_term_counter = 1, variance_term_counter = 1\<rparr>
       (pending_bursts dm) = (None, st)"
    and "s = normalize_statistic ext (statistic st)"
    and "v = (if variance_estimation_method self = VEM_PERMUTATION
              then normalize_variance ext (variance st) else variance st)"
proof -
  let ?st0 = "\<lparr>statistic = 0, permuted_samples_statistic = 0, variance = 0,
        statistic_term_counter = 1, variance_term_counter = 1\<rparr>"
  let ?body = "statistic_variance_burst ext self kern
        (fst (create_computation_jobs ext dm self))
        (snd (snd (create_computation_jobs ext dm self)))"
  obtain nb dm1 where n: "dm_next (dm_start dm) = (nb, dm1)"
    by (cases "dm_next (dm_start dm)")
  obtain r st dm2 where w: "while_not_empty ?body ?st0 nb dm1 = (r, st, dm2)"
    by (cases "while_not_empty ?body ?st0 nb dm1")
  have f: "fold_bursts ?body ?st0 (pending_bursts dm) = (r, st)"
    using while_not_empty_fold_bursts [OF w] first_burst [OF n] by simp
  have c: "fst (compute_statistic_variance ext self km dm)
           = (case r of Some e \<Rightarrow> Inl e
              | None \<Rightarrow> Inr (normalize_statistic ext (statistic st),
                        if variance_estimation_method self = VEM_PERMUTATION
                        then normalize_variance ext (variance st) else variance st))"
    using assms(2) n w
    by (simp add: compute_statistic_variance_def case_prod_unfold Let_def split: option.splits)
  from c assms(1) have r: "r = None" by (cases r) auto
  show ?thesis
    using that [of st] f c assms(1) unfolding r by simp
qed

lemma length_stream_values:
  "length (stream_values ext kern j dm) = length (concat (pending_bursts dm))"
  by (simp add: stream_values_def burst_values_def length_concat comp_def)

lemma example_permutation_run:
  "fst (compute_statistic_variance ext_example
          (Self_init\<lparr>variance_estimation_method := VEM_PERMUTATION\<rparr>)
          [0 \<mapsto> 1] (dm_example [[(1, 0), (2, 0)], [(6, 0)]])) = Inr (6, 42)"
  by (simp add: compute_statistic_variance_def dm_example_def ext_example_def Self_init_def
      dm_next_def dm_start_def dm_end_def while_not_empty.simps statistic_variance_burst_def
      merge_samples_def compute_kernel_def compute_jobs_def compute_data_parallel_jobs_def
      create_computation_jobs_def create_statistic_job_def create_variance_job_def
      fold_statistic_def fold_variance_def accumulate_def accumulate_permutation_def
      index_to_real_def)

lemma example_direct_run:
  "fst (compute_statistic_variance ext_example Self_init
          [0 \<mapsto> 1] (dm_example [[(1, 0), (2, 0)], [(6, 0)]])) = Inr (6, 41 / 3)"
  by (simp add: compute_statistic_variance_def dm_example_def ext_example_def Self_init_def
      dm_next_def dm_start_def dm_end_def while_not_empty.simps statistic_variance_burst_def
      merge_samples_def compute_kernel_def compute_jobs_def compute_data_parallel_jobs_def
      create_computation_jobs_def create_statistic_job_def create_variance_job_def
      fold_statistic_def fold_variance_def accumulate_def accumulate_permutation_def
      index_to_real_def)

section \<open>Properties of the configuration methods\<close>

lemma last_set_Cons:
  "last_set arg (c # cs) d = last_set arg cs (case arg c of Some v \<Rightarrow> v | None \<Rightarrow> d)"
  by (cases "arg c"; cases "List.map_filter arg cs")
    (simp_all add: last_set_def map_filter_simps)

lemma getter_last_set:
  assumes "\<And>c s. g (run_call c s) = (case arg c of Some v \<Rightarrow> v | None \<Rightarrow> g s)"
  shows "g (run_calls calls s) = last_set arg calls (g s)"
proof (induction calls arbitrary: s)
  case Nil
  show ?case by (simp add: run_calls_def last_set_def map_filter_simps)
next
  case (Cons c cs)
  have "g (run_calls (c # cs) s) = g (run_calls cs (run_call c s))"
    by (simp add: run_calls_def)
  also have "\<dots> = last_set arg cs (g (run_call c s))" by (rule Cons.IH)
  also have "\<dots> = last_set arg (c # cs) (g s)"
    by (simp add: assms last_set_Cons)
  finally show ?case .
qed

lemmas setter_defs =
  set_num_null_samples_def set_use_gpu_def set_statistic_type_def
  set_variance_estimation_method_def set_null_approximation_method_def add_kernel_def

section \<open>Properties of the Q matrix and of the null samples\<close>

lemmas example_defs =
  dm_example_def ext_example_def Self_init_def
  dm_next_def dm_start_def dm_end_def
  merge_samples_def compute_kernel_def compute_jobs_def compute_data_parallel_jobs_def
  create_computation_jobs_def create_statistic_job_def create_variance_job_def
  accumulate_def index_to_real_def

lemmas Q_run_defs =
  compute_statistic_and_Q_def statistic_and_Q_burst_def Q_init_def update_Q_def
  update_Q_cell_def for_each_by_value_def
  while_not_empty.simps accumulate_kernels.simps accumulate_Q_terms.simps

lemma fold_bursts_append:
  assumes "fst (fold_bursts body acc pre) = None"
  shows "fold_bursts body acc (pre @ bs) = fold_bursts body (snd (fold_bursts body acc pre)) bs"
  using assms
proof (induction pre arbitrary: acc)
  case Nil
  then show ?case by simp
next
  case (Cons b pre)
  obtain e a where b: "body acc b = (e, a)" by (cases "body acc b")
  with Cons.prems have e: "e = None" by (cases e) auto
  from Cons.prems b e have "fst (fold_bursts body a pre) = None" by simp
  from Cons.IH [OF this] show ?case using b e by simp
qed

lemma statistic_and_Q_burst_odd:
  assumes "odd (length b)"
  shows "statistic_and_Q_burst ext self sj st b = (Some (OddNumBlocks (length b)), st)"
  using assms by (simp add: statistic_and_Q_burst_def Let_def odd_iff_mod_2_eq_one)

lemma compute_statistic_and_Q_loop:
  assumes "kernel_selection_mgr self \<noteq> []"
    and "dm_next (dm_start dm) = (nb, dm1)"
    and "while_not_empty (statistic_and_Q_burst ext self
           (fst (create_computation_jobs ext dm self)))
           (Q_init (length (kernel_selection_mgr self))) nb dm1 = (r, st, dm2)"
  shows "fst (compute_statistic_and_Q ext self dm)
         = (case r of Some e \<Rightarrow> Inl e
            | None \<Rightarrow> Inr (for_each_by_value (normalize_statistic ext) (statistics st), Q_mat st))"
  using assms
  by (simp add: compute_statistic_and_Q_def case_prod_unfold Let_def split: option.splits)

lemma accumulate_replicate_nth:
  assumes "j < length (fst st)" and "j < length (snd st)"
  shows "length (fst (accumulate_replicate self pj data j st)) = length (fst st)"
    and "length (snd (accumulate_replicate self pj data j st)) = length (snd st)"
    and "(fst (accumulate_replicate self pj data j st) ! i,
          snd (accumulate_replicate self pj data j st) ! i)
         = (if i = j then fold (\<lambda>x acc. accumulate acc x) (map (pj j) data)
                            (fst st ! j, snd st ! j)
            else (fst st ! i, snd st ! i))"
  using assms
  by (simp_all add: accumulate_replicate_def case_prod_unfold Let_def compute_jobs_map)

lemma fold_accumulate_replicate:
  assumes "n \<le> length (fst st)" and "n \<le> length (snd st)"
  shows "length (fst (fold (\<lambda>j st. accumulate_replicate self pj data j st) [0..<n] st))
           = length (fst st)
       \<and> length (snd (fold (\<lambda>j st. accumulate_replicate self pj data j st) [0..<n] st))
           = length (snd st)
       \<and> (\<forall>i. (fst (fold (\<lambda>j st. accumulate_replicate self pj data j st) [0..<n] st) ! i,
                snd (fold (\<lambda>j st. accumulate_replicate self pj data j st) [0..<n] st) ! i)
              = (if i < n then fold (\<lambda>x acc. accumulate acc x) (map (pj i) data)
                                 (fst st ! i, snd st ! i)
                 else (fst st ! i, snd st ! i)))"
  using assms
proof (induction n)
  case 0
  then show ?case by simp
next
  case (Suc n)
  let ?st = "fold (\<lambda>j st. accumulate_replicate self pj data j st) [0..<n] st"
  have ih: "length (fst ?st) = length (fst st)" "length (snd ?st) = length (snd st)"
    "\<And>i. (fst ?st ! i, snd ?st ! i)
       = (if i < n then fold (\<lambda>x acc. accumulate acc x) (map (pj i) data) (fst st ! i, snd st ! i)
          else (fst st ! i, snd st ! i))"
    using Suc by simp_all
  have n: "n < length (fst ?st)" "n < length (snd ?st)"
    using Suc.prems ih by simp_all
  have f: "fold (\<lambda>j st. accumulate_replicate self pj data j st) [0..<Suc n] st
           = accumulate_replicate self pj data n ?st"
    by simp
  have here: "(fst ?st ! n, snd ?st ! n) = (fst st ! n, snd st ! n)"
    using ih(3) [of n] by simp
  show ?case
    unfolding f
    using accumulate_replicate_nth [OF n, of self pj data] ih here
    by (auto simp: less_Suc_eq)
qed

lemma sample_null_burst_None:
  assumes "sample_null_burst ext self kern pj st b = (None, st')"
  shows "st' = fold (\<lambda>j st. accumulate_replicate self pj
                  (map (\<lambda>blk. the (get_kernel_matrix ext kern blk)) (merge_samples ext b)) j st)
                [0..<nat (sint (num_null_samples self))] st"
proof (cases "compute_kernel ext (merge_samples ext b) kern")
  case (Inl e)
  with assms show ?thesis by (simp add: sample_null_burst_def)
next
  case (Inr data)
  with assms compute_kernel_Inr [OF Inr] show ?thesis
    by (simp add: sample_null_burst_def)
qed

lemma burst_values_alt:
  "map (j :: 'm \<Rightarrow> real) (map (\<lambda>blk. the (get_kernel_matrix ext kern blk)) (merge_samples ext b))
   = burst_values ext kern j b"
  by (simp add: merge_samples_def burst_values_def comp_def case_prod_unfold)

lemma fold_bursts_sample_null:
  assumes "fold_bursts (sample_null_burst ext self kern pj) st bs = (None, st')"
    and "length (fst st) = nat (sint (num_null_samples self))"
    and "length (snd st) = nat (sint (num_null_samples self))"
  shows "length (fst st') = nat (sint (num_null_samples self))
       \<and> (\<forall>i < nat (sint (num_null_samples self)).
            (fst st' ! i, snd st' ! i)
            = fold (\<lambda>x acc. accumulate acc x)
                (concat (map (burst_values ext kern (pj i)) bs)) (fst st ! i, snd st ! i))"
  using assms
proof (induction bs arbitrary: st)
  case Nil
  then show ?case by simp
next
  case (Cons b bs)
  let ?R = "nat (sint (num_null_samples self))"
  obtain e st1 where b: "sample_null_burst ext self kern pj st b = (e, st1)"
    by (cases "sample_null_burst ext self kern pj st b")
  with Cons.prems(1) have e: "e = None" by (cases e) auto
  with Cons.prems(1) b have r: "fold_bursts (sample_null_burst ext self kern pj) st1 bs = (None, st')"
    by simp
  let ?data = "map (\<lambda>blk. the (get_kernel_matrix ext kern blk)) (merge_samples ext b)"
  have st1: "st1 = fold (\<lambda>j st. accumulate_replicate self pj ?data j st) [0..<?R] st"
    using sample_null_burst_None [OF b [unfolded e]] .
  have le: "?R \<le> length (fst st)" "?R \<le> length (snd st)"
    using Cons.prems by simp_all
  note step = fold_accumulate_replicate [OF le, of self pj ?data, folded st1,
      unfolded burst_values_alt]
  have l1: "length (fst st1) = ?R" "length (snd st1) = ?R"
    using step Cons.prems by simp_all
  have v1: "(fst st1 ! i, snd st1 ! i)
            = fold (\<lambda>x acc. accumulate acc x) (burst_values ext kern (pj i) b)
                (fst st ! i, snd st ! i)" if "i < ?R" for i
    using step that by simp
  from Cons.IH [OF r l1] v1 show ?case by simp
qed

lemma sample_null_Inr:
  assumes "fst (sample_null ext self km dm) = Inr result"
    and "km 0 = Some kern"
  obtains st where
    "fold_bursts (sample_null_burst ext self kern (snd (create_statistic_job ext dm self)))
       (replicate (nat (sint (num_null_samples self))) 0,
        replicate (nat (sint (num_null_samples self))) 1)
       (pending_bursts dm) = (None, st)"
    and "result = map (normalize_statistic ext) (fst st)"
    and "0 \<le> sint (num_null_samples self)"
proof -
  let ?R = "nat (sint (num_null_samples self))"
  let ?body = "sample_null_burst ext self kern (snd (create_statistic_job ext dm self))"
  let ?st0 = "(replicate ?R (0 :: real), replicate ?R (1 :: index_t))"
  have nn: "0 \<le> sint (num_null_samples self)"
    using assms by (auto simp: sample_null_def split: if_splits)
  obtain nb dm1 where n: "dm_next (dm_start dm) = (nb, dm1)"
    by (cases "dm_next (dm_start dm)")
  obtain r st dm2 where w: "while_not_empty ?body ?st0 nb dm1 = (r, st, dm2)"
    by (cases "while_not_empty ?body ?st0 nb dm1")
  have f: "fold_bursts ?body ?st0 (pending_bursts dm) = (r, st)"
    using while_not_empty_fold_bursts [OF w] first_burst [OF n] by simp
  have c: "fst (sample_null ext self km dm)
           = (case r of Some e \<Rightarrow> Inl e
              | None \<Rightarrow> Inr (map (normalize_statistic ext) (fst st)))"
    using assms(2) n w nn
    by (simp add: sample_null_def case_prod_unfold Let_def for_each_by_reference_def
        split: option.splits)
  from c assms(1) have r: "r = None" by (cases r) auto
  show ?thesis
    using that [of st] f c assms(1) nn unfolding r by simp
qed

lemma example_null_run:
  "fst (sample_null ext_example (Self_init\<lparr>num_null_samples := 2\<rparr>)
          [0 \<mapsto> 1] (dm_example [[(1, 0), (2, 0)], [(6, 0)]])) = Inr [6, 8]"
  by (simp add: sample_null_def sample_null_burst_def accumulate_replicate_def
      for_each_by_reference_def while_not_empty.simps example_defs numeral_2_eq_2)

lemma accumulate_Q_terms_fold:
  assumes "even n" and "even k"
  shows "accumulate_Q_terms mi mj n k acc
         = fold (\<lambda>x a. accumulate a x)
             (map (\<lambda>t. (mi ! (2 * t) - mi ! (2 * t + 1)) * (mj ! (2 * t) - mj ! (2 * t + 1)))
                [k div 2..<n div 2]) acc"
  using assms
proof (induction mi mj n k acc rule: accumulate_Q_terms.induct)
  case (1 mi mj n k acc)
  show ?case
  proof (cases "k < n - 1")
    case True
    from True "1.prems" have lt: "k div 2 < n div 2"
      by (auto elim!: evenE)
    have k2: "2 * (k div 2) = k" "(k + 2) div 2 = Suc (k div 2)"
      using "1.prems" by auto
    have ev: "even (k + 2)" using "1.prems" by simp
    show ?thesis
      using "1.IH" [OF True "1.prems"(1) ev] True
      by (subst accumulate_Q_terms.simps) (simp add: upt_conv_Cons [OF lt] k2)
  next
    case False
    with "1.prems" have "n div 2 \<le> k div 2"
      by (auto elim!: evenE)
    with False show ?thesis
      by (subst accumulate_Q_terms.simps) simp
  qed
qed

lemma Q_terms_index:
  assumes "length mi = n" and "length mj = n"
  shows "map (\<lambda>t. (mi ! (2 * t) - mi ! (2 * t + 1)) * (mj ! (2 * t) - mj ! (2 * t + 1)))
           [0..<n div 2] = Q_terms mi mj"
  using assms
  by (simp add: Q_terms_def pair_differences_def zip_map_map zip_same_conv_map comp_def)

lemma update_Q_cell_fields:
  "mmds (update_Q_cell n i j st) = mmds st"
  "Q_mat (update_Q_cell n i j st)
   = (Q_mat st)((i, j) := fst (Q_cell_result n st i j), (j, i) := fst (Q_cell_result n st i j))"
  "term_counters_Q (update_Q_cell n i j st)
   = (term_counters_Q st)((i, j) := snd (Q_cell_result n st i j))"
  by (simp_all add: update_Q_cell_def Q_cell_result_def case_prod_unfold Let_def)

lemma Q_cell_result_cong:
  assumes "mmds st' = mmds st" and "Q_mat st' (i, j) = Q_mat st (i, j)"
    and "term_counters_Q st' (i, j) = term_counters_Q st (i, j)"
  shows "Q_cell_result n st' i j = Q_cell_result n st i j"
  using assms by (simp add: Q_cell_result_def)

lemma update_Q_row:
  assumes "m \<le> Suc i"
  shows "mmds (fold (\<lambda>j st. update_Q_cell n i j st) [0..<m] st) = mmds st
       \<and> (\<forall>a b. Q_mat (fold (\<lambda>j st. update_Q_cell n i j st) [0..<m] st) (a, b)
              = (if a = i \<and> b < m then fst (Q_cell_result n st i b)
                 else if b = i \<and> a < m then fst (Q_cell_result n st i a)
                 else Q_mat st (a, b)))
       \<and> (\<forall>a b. term_counters_Q (fold (\<lambda>j st. update_Q_cell n i j st) [0..<m] st) (a, b)
              = (if a = i \<and> b < m then snd (Q_cell_result n st i b)
                 else term_counters_Q st (a, b)))"
  using assms
proof (induction m)
  case 0
  then show ?case by simp
next
  case (Suc m)
  let ?st = "fold (\<lambda>j st. update_Q_cell n i j st) [0..<m] st"
  have ih: "mmds ?st = mmds st"
    "\<And>a b. Q_mat ?st (a, b)
       = (if a = i \<and> b < m then fst (Q_cell_result n st i b)
          else if b = i \<and> a < m then fst (Q_cell_result n st i a)
          else Q_mat st (a, b))"
    "\<And>a b. term_counters_Q ?st (a, b)
       = (if a = i \<and> b < m then snd (Q_cell_result n st i b) else term_counters_Q st (a, b))"
    using Suc by simp_all
  have mi: "m \<le> i" using Suc.prems by simp
  have r: "Q_cell_result n ?st i m = Q_cell_result n st i m"
    by (rule Q_cell_result_cong) (use ih mi in auto)
  have f: "fold (\<lambda>j st. update_Q_cell n i j st) [0..<Suc m] st = update_Q_cell n i m ?st"
    by simp
  have m': "mmds (update_Q_cell n i m ?st) = mmds st"
    by (simp add: update_Q_cell_fields ih(1))
  have q': "Q_mat (update_Q_cell n i m ?st) (a, b)
       = (if a = i \<and> b < Suc m then fst (Q_cell_result n st i b)
          else if b = i \<and> a < Suc m then fst (Q_cell_result n st i a)
          else Q_mat st (a, b))" for a b
    unfolding update_Q_cell_fields r fun_upd_apply ih(2) prod.inject
    using mi
    by (cases "a = i"; cases "b = i"; cases "a = m"; cases "b = m"; simp add: less_Suc_eq)
  have c': "term_counters_Q (update_Q_cell n i m ?st) (a, b)
       = (if a = i \<and> b < Suc m then snd (Q_cell_result n st i b) else term_counters_Q st (a, b))"
    for a b
    unfolding update_Q_cell_fields r fun_upd_apply ih(3) prod.inject
    using mi
    by (cases "a = i"; cases "b = m"; simp add: less_Suc_eq)
  show ?case
    unfolding f using m' q' c' by blast
qed

lemma update_Q_matrix:
  "mmds (update_Q n N st) = mmds st
   \<and> (\<forall>a b. Q_mat (update_Q n N st) (a, b)
          = (if a < N \<and> b < N then fst (Q_cell_result n st (max a b) (min a b))
             else Q_mat st (a, b)))
   \<and> (\<forall>a b. term_counters_Q (update_Q n N st) (a, b)
          = (if a < N \<and> b \<le> a then snd (Q_cell_result n st a b)
             else term_counters_Q st (a, b)))"
proof (induction N)
  case 0
  then show ?case by (simp add: update_Q_def)
next
  case (Suc N)
  let ?st = "update_Q n N st"
  have ih: "mmds ?st = mmds st"
    "\<And>a b. Q_mat ?st (a, b)
       = (if a < N \<and> b < N then fst (Q_cell_result n st (max a b) (min a b))
          else Q_mat st (a, b))"
    "\<And>a b. term_counters_Q ?st (a, b)
       = (if a < N \<and> b \<le> a then snd (Q_cell_result n st a b) else term_counters_Q st (a, b))"
    using Suc by simp_all
  have r: "Q_cell_result n ?st N b = Q_cell_result n st N b" for b
    by (rule Q_cell_result_cong) (use ih in auto)
  have f: "update_Q n (Suc N) st = fold (\<lambda>j st. update_Q_cell n N j st) [0..<Suc N] ?st"
    by (simp add: update_Q_def)
  note row = update_Q_row [of "Suc N" N n ?st, simplified r, folded f]
  have m: "mmds (update_Q n (Suc N) st) = mmds st"
    using row ih(1) by simp
  have q: "Q_mat (update_Q n (Suc N) st) (a, b)
          = (if a < Suc N \<and> b < Suc N then fst (Q_cell_result n st (max a b) (min a b))
             else Q_mat st (a, b))" for a b
    using row [THEN conjunct2, THEN conjunct1, rule_format, of a b] ih(2) [of a b]
    by (cases "a = N"; cases "b = N"; cases "a < N"; cases "b < N";
        simp add: less_Suc_eq max_def min_def)
  have c: "term_counters_Q (update_Q n (Suc N) st) (a, b)
          = (if a < Suc N \<and> b \<le> a then snd (Q_cell_result n st a b)
             else term_counters_Q st (a, b))" for a b
    using row [THEN conjunct2, THEN conjunct2, rule_format, of a b] ih(3) [of a b]
    by (cases "a = N"; cases "a < N"; cases "b \<le> a"; simp add: less_Suc_eq)
  show ?case using m q c by blast
qed

lemma accumulate_kernels_None:
  assumes "accumulate_kernels ext self sj n blocks k st = (None, st')"
    and "length (mmds st) = length (kernel_selection_mgr self)"
  shows "Q_mat st' = Q_mat st \<and> term_counters_Q st' = term_counters_Q st
       \<and> length (mmds st') = length (mmds st)
       \<and> (\<forall>i < length (kernel_selection_mgr self).
            mmds st' ! i
            = (if k \<le> i
               then map (sj 0) (map (\<lambda>blk. the (get_kernel_matrix ext (kernel_selection_mgr self ! i) blk))
                                 blocks)
               else mmds st ! i))"
  using assms
proof (induction ext self sj n blocks k st rule: accumulate_kernels.induct)
  case (1 ext self sj n blocks k st)
  show ?case
  proof (cases "k < length (kernel_selection_mgr self)")
    case False
    with "1.prems" show ?thesis
      by (simp add: accumulate_kernels.simps [of ext self sj n blocks k st])
  next
    case True
    note u = "1.prems"(1) [unfolded accumulate_kernels.simps [of ext self sj n blocks k st]]
    obtain data where d: "compute_kernel ext blocks (kernel_selection_mgr self ! k) = Inr data"
      using u True by (cases "compute_kernel ext blocks (kernel_selection_mgr self ! k)") auto
    define mmds_k where "mmds_k = compute_jobs self 0 sj data"
    obtain s c where sc: "(s, c) = fold (\<lambda>i acc. accumulate acc (mmds_k ! i)) [0..<n]
                                (statistics st ! k, term_counters_statistic st ! k)"
      by (metis surj_pair)
    let ?st = "st\<lparr>mmds := (mmds st)[k := mmds_k],
                 statistics := (statistics st)[k := s],
                 term_counters_statistic := (term_counters_statistic st)[k := c]\<rparr>"
    have rec: "accumulate_kernels ext self sj n blocks (k + 1) ?st = (None, st')"
      using u True d sc [symmetric] by (simp add: mmds_k_def Let_def)
    have len: "length (mmds ?st) = length (kernel_selection_mgr self)"
      using "1.prems"(2) by simp
    note ih = "1.IH" [OF True d mmds_k_def refl sc rec len]
    have mk: "mmds_k = map (sj 0) (map (\<lambda>blk. the (get_kernel_matrix ext (kernel_selection_mgr self ! k) blk))
                                 blocks)"
      unfolding mmds_k_def compute_jobs_map compute_kernel_Inr [OF d] ..
    have "mmds st' ! i
            = (if k \<le> i
               then map (sj 0) (map (\<lambda>blk. the (get_kernel_matrix ext (kernel_selection_mgr self ! i) blk))
                                 blocks)
               else mmds st ! i)" if "i < length (kernel_selection_mgr self)" for i
    proof (cases "i = k")
      case True
      with ih that "1.prems"(2) mk show ?thesis by simp
    next
      case False
      with ih that "1.prems"(2) show ?thesis by (cases "k < i") simp_all
    qed
    with ih show ?thesis by simp
  qed
qed

lemma length_burst_values: "length (burst_values ext kern j b) = length b"
  by (simp add: burst_values_def)

lemma accumulate_Q_terms_Q_terms:
  assumes "even n" and "length mi = n" and "length mj = n"
  shows "accumulate_Q_terms mi mj n 0 acc = fold (\<lambda>x a. accumulate a x) (Q_terms mi mj) acc"
proof -
  have "accumulate_Q_terms mi mj n 0 acc
        = fold (\<lambda>x a. accumulate a x)
            (map (\<lambda>t. (mi ! (2 * t) - mi ! (2 * t + 1)) * (mj ! (2 * t) - mj ! (2 * t + 1)))
               [0 div 2..<n div 2]) acc"
    by (rule accumulate_Q_terms_fold) (use assms in simp_all)
  then show ?thesis
    unfolding Q_terms_index [OF assms(2,3), symmetric] by simp
qed

lemma statistic_and_Q_burst_None:
  assumes "statistic_and_Q_burst ext self sj st b = (None, st')"
    and "length (mmds st) = length (kernel_selection_mgr self)"
    and "i < length (kernel_selection_mgr self)" and "j \<le> i"
  shows "length (mmds st') = length (kernel_selection_mgr self)"
    and "(Q_mat st' (i, j), term_counters_Q st' (i, j))
         = fold (\<lambda>x a. accumulate a x)
             (Q_terms (burst_values ext (kernel_selection_mgr self ! i) (sj 0) b)
                      (burst_values ext (kernel_selection_mgr self ! j) (sj 0) b))
             (Q_mat st (i, j), term_counters_Q st (i, j))"
    and "Q_mat st' (j, i) = Q_mat st' (i, j)"
proof -
  let ?nk = "length (kernel_selection_mgr self)"
  let ?n = "length b"
  have ev: "even ?n"
    using assms(1) by (auto simp: statistic_and_Q_burst_def Let_def split: if_splits)
  obtain e st1 where k: "accumulate_kernels ext self sj ?n (merge_samples ext b) 0 st = (e, st1)"
    by (cases "accumulate_kernels ext self sj ?n (merge_samples ext b) 0 st")
  from assms(1) ev k have e: "e = None"
    by (cases e) (auto simp: statistic_and_Q_burst_def Let_def)
  from assms(1) ev k e have st': "st' = update_Q ?n ?nk st1"
    by (auto simp: statistic_and_Q_burst_def Let_def)
  note ak = accumulate_kernels_None [OF k [unfolded e] assms(2), unfolded burst_values_alt]
  have m1: "mmds st1 ! a = burst_values ext (kernel_selection_mgr self ! a) (sj 0) b"
    if "a < ?nk" for a
    using ak that by simp
  note uq = update_Q_matrix [of ?n ?nk st1, folded st']
  show "length (mmds st') = ?nk"
    using uq ak assms(2) by simp
  have ji: "j < ?nk" using assms(3,4) by simp
  have cell: "Q_cell_result ?n st1 i j
        = fold (\<lambda>x a. accumulate a x)
             (Q_terms (burst_values ext (kernel_selection_mgr self ! i) (sj 0) b)
                      (burst_values ext (kernel_selection_mgr self ! j) (sj 0) b))
             (Q_mat st (i, j), term_counters_Q st (i, j))"
    unfolding Q_cell_result_def m1 [OF assms(3)] m1 [OF ji]
    using ak by (simp add: accumulate_Q_terms_Q_terms [OF ev] length_burst_values)
  have q: "Q_mat st' (i, j) = fst (Q_cell_result ?n st1 i j)"
    "Q_mat st' (j, i) = fst (Q_cell_result ?n st1 i j)"
    "term_counters_Q st' (i, j) = snd (Q_cell_result ?n st1 i j)"
    using uq assms(3,4) ji by (simp_all add: max_def min_def)
  show "(Q_mat st' (i, j), term_counters_Q st' (i, j))
         = fold (\<lambda>x a. accumulate a x)
             (Q_terms (burst_values ext (kernel_selection_mgr self ! i) (sj 0) b)
                      (burst_values ext (kernel_selection_mgr self ! j) (sj 0) b))
             (Q_mat st (i, j), term_counters_Q st (i, j))"
    using q cell by (metis prod.collapse)
  show "Q_mat st' (j, i) = Q_mat st' (i, j)"
    using q by simp
qed

lemma fold_bursts_Q:
  assumes "fold_bursts (statistic_and_Q_burst ext self sj) st bs = (None, st')"
    and "length (mmds st) = length (kernel_selection_mgr self)"
    and "i < length (kernel_selection_mgr self)" and "j \<le> i"
    and "Q_mat st (j, i) = Q_mat st (i, j)"
  shows "(Q_mat st' (i, j), term_counters_Q st' (i, j))
         = fold (\<lambda>x a. accumulate a x)
             (concat (map (\<lambda>b. Q_terms (burst_values ext (kernel_selection_mgr self ! i) (sj 0) b)
                                        (burst_values ext (kernel_selection_mgr self ! j) (sj 0) b))
                        bs))
             (Q_mat st (i, j), term_counters_Q st (i, j))
       \<and> Q_mat st' (j, i) = Q_mat st' (i, j)"
  using assms(1,2,5)
proof (induction bs arbitrary: st)
  case Nil
  then show ?case by simp
next
  case (Cons b bs)
  obtain e st1 where b: "statistic_and_Q_burst ext self sj st b = (e, st1)"
    by (cases "statistic_and_Q_burst ext self sj st b")
  with Cons.prems(1) have e: "e = None" by (cases e) auto
  with Cons.prems(1) b have r: "fold_bursts (statistic_and_Q_burst ext self sj) st1 bs = (None, st')"
    by simp
  note step = statistic_and_Q_burst_None [OF b [unfolded e] Cons.prems(2) assms(3,4)]
  from Cons.IH [OF r step(1) step(3)] step(2) show ?case by simp
qed

lemma compute_statistic_and_Q_Inr:
  assumes "fst (compute_statistic_and_Q ext self dm) = Inr (stat, Q)"
  obtains st where
    "fold_bursts (statistic_and_Q_burst ext self (fst (create_statistic_job ext dm self)))
       (Q_init (length (kernel_selection_mgr self))) (pending_bursts dm) = (None, st)"
    and "stat = statistics st" and "Q = Q_mat st"
proof -
  let ?body = "statistic_and_Q_burst ext self (fst (create_computation_jobs ext dm self))"
  let ?st0 = "Q_init (length (kernel_selection_mgr self))"
  have sj: "fst (create_computation_jobs ext dm self) = fst (create_statistic_job ext dm self)"
    by (simp add: create_computation_jobs_def case_prod_unfold Let_def)
  have ne: "kernel_selection_mgr self \<noteq> []"
    using assms by (auto simp: compute_statistic_and_Q_def Let_def split: if_splits)
  obtain nb dm1 where n: "dm_next (dm_start dm) = (nb, dm1)"
    by (cases "dm_next (dm_start dm)")
  obtain r st dm2 where w: "while_not_empty ?body ?st0 nb dm1 = (r, st, dm2)"
    by (cases "while_not_empty ?body ?st0 nb dm1")
  have f: "fold_bursts ?body ?st0 (pending_bursts dm) = (r, st)"
    using while_not_empty_fold_bursts [OF w] first_burst [OF n] by simp
  note c = compute_statistic_and_Q_loop [OF ne n w]
  from c assms have r: "r = None" by (cases r) auto
  show ?thesis
    using that [of st] f c assms unfolding r sj by (simp add: for_each_by_value_def)
qed

lemma Q_terms_commute: "Q_terms mi mj = Q_terms mj mi"
proof -
  have "map2 (*) xs ys = map2 (*) ys xs" for xs ys :: "real list"
    by (induction xs ys rule: list_induct2') (simp_all add: mult.commute)
  then show ?thesis by (simp add: Q_terms_def)
qed

lemma Q_terms_same: "Q_terms m m = map (\<lambda>d. d * d) (pair_differences m)"
  by (simp add: Q_terms_def zip_same_conv_map comp_def)

lemma stream_Q_terms_commute:
  "stream_Q_terms ext j ki kj dm = stream_Q_terms ext j kj ki dm"
  by (simp add: stream_Q_terms_def Q_terms_commute [of "burst_values ext ki j _"])

lemma stream_Q_terms_same:
  "stream_Q_terms ext j k k dm = map (\<lambda>d. d * d) (stream_pair_differences ext j k dm)"
  by (simp add: stream_Q_terms_def stream_pair_differences_def Q_terms_same map_concat comp_def)

lemma length_stream_Q_terms:
  "length (stream_Q_terms ext j ki kj dm)
   = sum_list (map (\<lambda>b. length b div 2) (pending_bursts dm))"
  by (simp add: stream_Q_terms_def Q_terms_def pair_differences_def length_concat comp_def
      length_burst_values)

lemma nat_eval: "Suc (Suc (Suc (Suc 0))) = 4" "[0..<2] = [0, Suc 0]" "[0..<4] = [0, 1, 2, 3]"
  by (simp_all add: upt_conv_Cons)

lemma example_Q_matrix_run:
  "fst (compute_statistic_and_Q ext_example (Self_init\<lparr>kernel_selection_mgr := [1, 2]\<rparr>)
          (dm_example [[(1, 0), (3, 0)], [(2, 0), (5, 0), (1, 1), (1, 0)]]))
   = Inr (fst (projr (fst (compute_statistic_and_Q ext_example
                  (Self_init\<lparr>kernel_selection_mgr := [1, 2]\<rparr>)
                  (dm_example [[(1, 0), (3, 0)], [(2, 0), (5, 0), (1, 1), (1, 0)]])))),
          snd (projr (fst (compute_statistic_and_Q ext_example
                  (Self_init\<lparr>kernel_selection_mgr := [1, 2]\<rparr>)
                  (dm_example [[(1, 0), (3, 0)], [(2, 0), (5, 0), (1, 1), (1, 0)]])))))"
  by (simp add: Q_run_defs example_defs nat_eval)

section \<open>Claims\<close>

text \<open>
  C2. A sequence of scalars shorter than the range of the term counter, folded through the
  online accumulator from its initial state (mean 0, counter 1), leaves the arithmetic mean
  of the sequence in the accumulator, and feeding the same scalars in any other order
  leaves the same mean.
\<close>

theorem online_mean_arith_mean:
  assumes "length xs < 2 ^ 31 - 1" and "mset ys = mset xs"
  shows "fst (fold (\<lambda>x acc. accumulate acc x) xs (0, 1)) = arith_mean xs
         \<and> fst (fold (\<lambda>x acc. accumulate acc x) ys (0, 1))
           = fst (fold (\<lambda>x acc. accumulate acc x) xs (0, 1))"
proof -
  have len: "length ys < 2 ^ 31 - 1"
    using assms mset_eq_length [OF assms(2)] by simp
  have "online_mean xs = arith_mean xs"
    by (rule online_mean_eq [OF assms(1)])
  moreover have "online_mean ys = online_mean xs"
    using online_mean_eq [OF assms(1)] online_mean_eq [OF len] arith_mean_mset [OF assms(2)]
    by simp
  ultimately show ?thesis by (simp add: online_mean_def)
qed

theorem online_mean_arith_mean_witness:
  "length [1, 2, 6 :: real] < 2 ^ 31 - 1 \<and> mset [6, 1, 2 :: real] = mset [1, 2, 6]
   \<and> fst (fold (\<lambda>x acc. accumulate acc x) [1, 2, 6] (0, 1)) = 3
   \<and> fst (fold (\<lambda>x acc. accumulate acc x) [6, 1, 2] (0, 1)) = 3"
  using online_mean_arith_mean [of "[1, 2, 6]" "[6, 1, 2]"] by (simp add: arith_mean_def)

text \<open>
  C1. In permutation mode the fold of one permutation scalar \<open>x\<close> first updates the running
  mean of the permutation scalars by the online rule and then adds
  \<open>(x - old mean) * (x - updated mean)\<close> to the variance accumulator. Hence, on a run that
  returns, over a stream whose number of blocks is in the range of the term counter, the
  variance returned is the variance normalisation of the sum of these cross terms over the
  scalars that the permutation job returns on the blocks of the stream.
\<close>

theorem permutation_variance_one_pass:
  assumes "variance_estimation_method self = VEM_PERMUTATION"
    and "km 0 = Some kern"
    and "fst (compute_statistic_variance ext self km dm) = Inr (s, v)"
    and "length (concat (pending_bursts dm)) < 2 ^ 31 - 1"
  shows "accumulate_permutation (m, var, c) x
         = (fst (accumulate (m, c) x), var + (x - m) * (x - fst (accumulate (m, c) x)), c + 1)
       \<and> v = normalize_variance ext
               (one_pass_variance_sum
                  (stream_values ext kern
                     (WithinBlockPermutation ext (blocksize_at dm 0) (blocksize_at dm 1)
                        (statistic_type self) 0) dm))"
proof -
  let ?vj = "snd (snd (create_computation_jobs ext dm self))"
  let ?vs = "stream_values ext kern (?vj 0) dm"
  have vj: "?vj = WithinBlockPermutation ext (blocksize_at dm 0) (blocksize_at dm 1)
                    (statistic_type self)"
    using assms(1)
    by (simp add: create_computation_jobs_def create_statistic_job_def create_variance_job_def
        Let_def)
  have nd: "variance_estimation_method self \<noteq> VEM_DIRECT" using assms(1) by simp
  have len: "length ?vs < 2 ^ 31 - 1"
    using assms(4) by (simp add: length_stream_values)
  obtain st where
    f: "fold_bursts (statistic_variance_burst ext self kern
          (fst (create_computation_jobs ext dm self)) ?vj)
         \<lparr>statistic = 0, permuted_samples_statistic = 0, variance = 0,
          statistic_term_counter = 1, variance_term_counter = 1\<rparr>
         (pending_bursts dm) = (None, st)"
    and v: "v = (if variance_estimation_method self = VEM_PERMUTATION
                 then normalize_variance ext (variance st) else variance st)"
    using compute_statistic_variance_Inr [OF assms(3) assms(2)] by blast
  have "(permuted_samples_statistic st, variance st, variance_term_counter st)
        = fold (\<lambda>x acc. accumulate_permutation acc x) ?vs (0, 0, 1)"
    using fold_bursts_permutation [OF f nd] by (simp add: stream_values_def)
  then have "variance st = one_pass_variance_sum ?vs"
    using one_pass_variance [OF len] by simp
  then have "v = normalize_variance ext (one_pass_variance_sum ?vs)"
    using v assms(1) by simp
  moreover have "accumulate_permutation (m, var, c) x
         = (fst (accumulate (m, c) x), var + (x - m) * (x - fst (accumulate (m, c) x)), c + 1)"
    by (simp add: accumulate_permutation_def accumulate_def Let_def)
  ultimately show ?thesis unfolding vj by simp
qed

theorem permutation_variance_one_pass_witness:
  "variance_estimation_method (Self_init\<lparr>variance_estimation_method := VEM_PERMUTATION\<rparr>
       :: nat Self) = VEM_PERMUTATION
   \<and> [0 \<mapsto> 1 :: nat] 0 = Some 1
   \<and> fst (compute_statistic_variance ext_example
          (Self_init\<lparr>variance_estimation_method := VEM_PERMUTATION\<rparr>)
          [0 \<mapsto> 1] (dm_example [[(1, 0), (2, 0)], [(6, 0)]])) = Inr (6, 42)
   \<and> length (concat (pending_bursts (dm_example [[(1, 0), (2, 0)], [(6, 0)]]))) < 2 ^ 31 - 1
   \<and> accumulate_permutation (1, 0, 2) 2 = (3 / 2, 1 / 2, 3)
   \<and> (42 :: real) = 3 * one_pass_variance_sum [1, 2, 6]"
proof -
  let ?self = "Self_init\<lparr>variance_estimation_method := VEM_PERMUTATION\<rparr> :: nat Self"
  let ?dm = "dm_example [[(1, 0), (2, 0)], [(6, 0)]]"
  have h1: "variance_estimation_method ?self = VEM_PERMUTATION" by simp
  have h2: "[0 \<mapsto> 1 :: nat] 0 = Some 1" by simp
  have h4: "length (concat (pending_bursts ?dm)) < 2 ^ 31 - 1"
    by (simp add: pending_bursts_def dm_example_def)
  have vs: "stream_values ext_example 1
              (WithinBlockPermutation ext_example (blocksize_at ?dm 0) (blocksize_at ?dm 1)
                 (statistic_type ?self) 0) ?dm = [1, 2, 6]"
    by (simp add: stream_values_def burst_values_def pending_bursts_def dm_example_def
        ext_example_def)
  have a: "fst (accumulate (1, 2) 2) = 3 / 2"
    by (simp add: accumulate_def index_to_real_def)
  show ?thesis
    using permutation_variance_one_pass [OF h1 h2 example_permutation_run h4, of 1 0 2 2]
      h1 h2 h4 example_permutation_run
    unfolding vs a by (simp add: ext_example_def)
qed

text \<open>
  C4. \<^verbatim>\<open>compute_statistic\<close> returns the first component of what
  \<^verbatim>\<open>compute_statistic_variance\<close> returns on the same configuration and stream (or raises
  the same error) and leaves the data manager in the same state; on a run that returns, this
  value is the statistic normalisation applied once to the value that the online accumulator
  holds after the statistic job's scalars on the blocks of the stream.
\<close>

theorem compute_statistic_normalized_once:
  assumes "km 0 = Some kern"
    and "fst (compute_statistic_variance ext self km dm) = Inr (s, v)"
  shows "compute_statistic ext self km dm
         = (Inr s, snd (compute_statistic_variance ext self km dm))
       \<and> s = normalize_statistic ext
               (online_mean (stream_values ext kern (fst (create_statistic_job ext dm self) 0) dm))"
proof -
  let ?sj = "fst (create_computation_jobs ext dm self)"
  have sj: "?sj = fst (create_statistic_job ext dm self)"
    by (simp add: create_computation_jobs_def case_prod_unfold Let_def)
  obtain st where
    f: "fold_bursts (statistic_variance_burst ext self kern ?sj
          (snd (snd (create_computation_jobs ext dm self))))
         \<lparr>statistic = 0, permuted_samples_statistic = 0, variance = 0,
          statistic_term_counter = 1, variance_term_counter = 1\<rparr>
         (pending_bursts dm) = (None, st)"
    and s: "s = normalize_statistic ext (statistic st)"
    using compute_statistic_variance_Inr [OF assms(2) assms(1)] by blast
  have "(statistic st, statistic_term_counter st)
        = fold (\<lambda>x acc. accumulate acc x) (stream_values ext kern (?sj 0) dm) (0, 1)"
    using fold_bursts_statistic [OF f] by (simp add: stream_values_def)
  from arg_cong [OF this, of fst]
  have "statistic st = online_mean (stream_values ext kern (?sj 0) dm)"
    by (simp add: online_mean_def)
  then have "s = normalize_statistic ext (online_mean (stream_values ext kern (?sj 0) dm))"
    using s by simp
  moreover have "compute_statistic ext self km dm
         = (Inr s, snd (compute_statistic_variance ext self km dm))"
    using assms(2) by (cases "compute_statistic_variance ext self km dm")
      (simp add: compute_statistic_def)
  ultimately show ?thesis unfolding sj by simp
qed

theorem compute_statistic_normalized_once_witness:
  "[0 \<mapsto> 1 :: nat] 0 = Some 1
   \<and> fst (compute_statistic_variance ext_example Self_init
          [0 \<mapsto> 1] (dm_example [[(1, 0), (2, 0)], [(6, 0)]])) = Inr (6, 41 / 3)
   \<and> fst (compute_statistic ext_example Self_init
          [0 \<mapsto> 1] (dm_example [[(1, 0), (2, 0)], [(6, 0)]])) = Inr 6
   \<and> (6 :: real) = 2 * online_mean [1, 2, 6]"
proof -
  let ?dm = "dm_example [[(1, 0), (2, 0)], [(6, 0)]]"
  have h1: "[0 \<mapsto> 1 :: nat] 0 = Some 1" by simp
  have vs: "stream_values ext_example 1
              (fst (create_statistic_job ext_example ?dm Self_init) 0) ?dm = [1, 2, 6]"
    by (simp add: stream_values_def burst_values_def pending_bursts_def dm_example_def
        ext_example_def create_statistic_job_def Self_init_def)
  show ?thesis
    using compute_statistic_normalized_once [OF h1 example_direct_run] h1 example_direct_run
    unfolding vs by (simp add: ext_example_def)
qed

text \<open>
  C9. With no kernel in slot 0 of the kernel manager, \<^verbatim>\<open>compute_statistic_variance\<close> and
  \<^verbatim>\<open>sample_null\<close> each raise the "kernel is not set" error and return no value; the data
  manager is as it was before the call, so the stream has not been started.
\<close>

theorem kernel_not_set:
  assumes "km 0 = None"
  shows "compute_statistic_variance ext self km dm = (Inl KernelNotSet, dm)
       \<and> sample_null ext self km dm = (Inl KernelNotSet, dm)"
  using assms by (simp add: compute_statistic_variance_def sample_null_def)

theorem kernel_not_set_witness:
  "(Map.empty :: nat KernelManager) 0 = None
   \<and> compute_statistic_variance ext_example Self_init Map.empty (dm_example [[(1, 0)]])
     = (Inl KernelNotSet, dm_example [[(1, 0)]])
   \<and> sample_null ext_example Self_init Map.empty (dm_example [[(1, 0)]])
     = (Inl KernelNotSet, dm_example [[(1, 0)]])"
  using kernel_not_set [of "Map.empty :: nat KernelManager" ext_example Self_init
      "dm_example [[(1, 0)]]"]
  by simp

text \<open>
  C10. A freshly constructed engine has 250 null samples, the unbiased full statistic, the
  direct variance estimation, the permutation null approximation and the GPU off. After any
  sequence of calls of the configuration methods, each getter returns the value of the last
  call of its setter in the sequence, or the default when the sequence has no such call.
\<close>

theorem configuration_defaults_and_setters:
  "get_num_null_samples (Self_init :: 'k Self) = 250
   \<and> get_statistic_type (Self_init :: 'k Self) = ST_UNBIASED_FULL
   \<and> get_variance_estimation_method (Self_init :: 'k Self) = VEM_DIRECT
   \<and> get_null_approximation_method (Self_init :: 'k Self) = NAM_PERMUTATION
   \<and> get_use_gpu (Self_init :: 'k Self) = False
   \<and> get_num_null_samples (run_calls calls (Self_init :: 'k Self))
       = last_set arg_num_null_samples calls 250
   \<and> get_statistic_type (run_calls calls (Self_init :: 'k Self))
       = last_set arg_statistic_type calls ST_UNBIASED_FULL
   \<and> get_variance_estimation_method (run_calls calls (Self_init :: 'k Self))
       = last_set arg_variance_estimation_method calls VEM_DIRECT
   \<and> get_null_approximation_method (run_calls calls (Self_init :: 'k Self))
       = last_set arg_null_approximation_method calls NAM_PERMUTATION
   \<and> get_use_gpu (run_calls calls (Self_init :: 'k Self))
       = last_set arg_use_gpu calls False"
proof -
  have d: "get_num_null_samples (Self_init :: 'k Self) = 250"
    "get_statistic_type (Self_init :: 'k Self) = ST_UNBIASED_FULL"
    "get_variance_estimation_method (Self_init :: 'k Self) = VEM_DIRECT"
    "get_null_approximation_method (Self_init :: 'k Self) = NAM_PERMUTATION"
    "get_use_gpu (Self_init :: 'k Self) = False"
    by (simp_all add: Self_init_def get_num_null_samples_def get_statistic_type_def
        get_variance_estimation_method_def get_null_approximation_method_def get_use_gpu_def)
  have 1: "get_num_null_samples (run_calls calls s) = last_set arg_num_null_samples calls
             (get_num_null_samples s)" for s :: "'k Self"
  proof (rule getter_last_set)
    fix c :: "'k config_call" and s :: "'k Self"
    show "get_num_null_samples (run_call c s)
          = (case arg_num_null_samples c of Some v \<Rightarrow> v | None \<Rightarrow> get_num_null_samples s)"
      by (cases c) (simp_all add: get_num_null_samples_def setter_defs)
  qed
  have 2: "get_statistic_type (run_calls calls s) = last_set arg_statistic_type calls
             (get_statistic_type s)" for s :: "'k Self"
  proof (rule getter_last_set)
    fix c :: "'k config_call" and s :: "'k Self"
    show "get_statistic_type (run_call c s)
          = (case arg_statistic_type c of Some v \<Rightarrow> v | None \<Rightarrow> get_statistic_type s)"
      by (cases c) (simp_all add: get_statistic_type_def setter_defs)
  qed
  have 3: "get_variance_estimation_method (run_calls calls s)
           = last_set arg_variance_estimation_method calls (get_variance_estimation_method s)"
    for s :: "'k Self"
  proof (rule getter_last_set)
    fix c :: "'k config_call" and s :: "'k Self"
    show "get_variance_estimation_method (run_call c s)
          = (case arg_variance_estimation_method c of Some v \<Rightarrow> v
             | None \<Rightarrow> get_variance_estimation_method s)"
      by (cases c) (simp_all add: get_variance_estimation_method_def setter_defs)
  qed
  have 4: "get_null_approximation_method (run_calls calls s)
           = last_set arg_null_approximation_method calls (get_null_approximation_method s)"
    for s :: "'k Self"
  proof (rule getter_last_set)
    fix c :: "'k config_call" and s :: "'k Self"
    show "get_null_approximation_method (run_call c s)
          = (case arg_null_approximation_method c of Some v \<Rightarrow> v
             | None \<Rightarrow> get_null_approximation_method s)"
      by (cases c) (simp_all add: get_null_approximation_method_def setter_defs)
  qed
  have 5: "get_use_gpu (run_calls calls s) = last_set arg_use_gpu calls (get_use_gpu s)"
    for s :: "'k Self"
  proof (rule getter_last_set)
    fix c :: "'k config_call" and s :: "'k Self"
    show "get_use_gpu (run_call c s)
          = (case arg_use_gpu c of Some v \<Rightarrow> v | None \<Rightarrow> get_use_gpu s)"
      by (cases c) (simp_all add: get_use_gpu_def setter_defs)
  qed
  show ?thesis
    using d 1 [of Self_init] 2 [of Self_init] 3 [of Self_init] 4 [of Self_init] 5 [of Self_init]
    by simp
qed

text \<open>
  C6. When the bursts before an odd-sized burst have been folded without error, the body of
  the loop of \<^verbatim>\<open>compute_statistic_and_Q\<close> raises, on the odd-sized burst, the error that
  carries its block count and leaves every accumulator as it was after the bursts before;
  the loop stops there with these accumulators, and \<^verbatim>\<open>compute_statistic_and_Q\<close> returns
  the error instead of a statistic and a matrix.
\<close>

theorem odd_burst_rejected:
  assumes "kernel_selection_mgr self \<noteq> []"
    and "pending_bursts dm = pre @ b # rest"
    and "odd (length b)"
    and "fst (fold_bursts (statistic_and_Q_burst ext self (fst (create_computation_jobs ext dm self)))
           (Q_init (length (kernel_selection_mgr self))) pre) = None"
  shows "statistic_and_Q_burst ext self (fst (create_computation_jobs ext dm self)) st b
         = (Some (OddNumBlocks (length b)), st)
       \<and> fst (while_not_empty
                (statistic_and_Q_burst ext self (fst (create_computation_jobs ext dm self)))
                (Q_init (length (kernel_selection_mgr self)))
                (fst (dm_next (dm_start dm))) (snd (dm_next (dm_start dm))))
           = Some (OddNumBlocks (length b))
       \<and> fst (snd (while_not_empty
                (statistic_and_Q_burst ext self (fst (create_computation_jobs ext dm self)))
                (Q_init (length (kernel_selection_mgr self)))
                (fst (dm_next (dm_start dm))) (snd (dm_next (dm_start dm)))))
           = snd (fold_bursts
                (statistic_and_Q_burst ext self (fst (create_computation_jobs ext dm self)))
                (Q_init (length (kernel_selection_mgr self))) pre)
       \<and> fst (compute_statistic_and_Q ext self dm) = Inl (OddNumBlocks (length b))"
proof -
  let ?body = "statistic_and_Q_burst ext self (fst (create_computation_jobs ext dm self))"
  let ?st0 = "Q_init (length (kernel_selection_mgr self))"
  obtain nb dm1 where n: "dm_next (dm_start dm) = (nb, dm1)"
    by (cases "dm_next (dm_start dm)")
  obtain r st' dm2 where w: "while_not_empty ?body ?st0 nb dm1 = (r, st', dm2)"
    by (cases "while_not_empty ?body ?st0 nb dm1")
  have "fold_bursts ?body ?st0 (pending_bursts dm) = (r, st')"
    using while_not_empty_fold_bursts [OF w] first_burst [OF n] by simp
  then have "(r, st') = fold_bursts ?body (snd (fold_bursts ?body ?st0 pre)) (b # rest)"
    using fold_bursts_append [OF assms(4)] assms(2) by simp
  then have r: "r = Some (OddNumBlocks (length b))" "st' = snd (fold_bursts ?body ?st0 pre)"
    by (simp_all add: statistic_and_Q_burst_odd [OF assms(3)])
  have "fst (compute_statistic_and_Q ext self dm) = Inl (OddNumBlocks (length b))"
    using compute_statistic_and_Q_loop [OF assms(1) n w] r by simp
  then show ?thesis
    using n w r by (simp add: statistic_and_Q_burst_odd [OF assms(3)])
qed

theorem odd_burst_rejected_witness:
  "kernel_selection_mgr (Self_init\<lparr>kernel_selection_mgr := [1 :: nat]\<rparr>) \<noteq> []
   \<and> pending_bursts (dm_example [[(1, 0), (3, 0)], [(2, 0), (5, 0), (1, 0)]])
       = [[(1, 0), (3, 0)]] @ [(2, 0), (5, 0), (1, 0)] # []
   \<and> odd (length [(2 :: real, 0 :: real), (5, 0), (1, 0)])
   \<and> fst (fold_bursts
        (statistic_and_Q_burst ext_example (Self_init\<lparr>kernel_selection_mgr := [1]\<rparr>)
           (fst (create_computation_jobs ext_example
              (dm_example [[(1, 0), (3, 0)], [(2, 0), (5, 0), (1, 0)]])
              (Self_init\<lparr>kernel_selection_mgr := [1]\<rparr>))))
        (Q_init (length (kernel_selection_mgr (Self_init\<lparr>kernel_selection_mgr := [1 :: nat]\<rparr>))))
        [[(1, 0), (3, 0)]]) = None
   \<and> fst (compute_statistic_and_Q ext_example (Self_init\<lparr>kernel_selection_mgr := [1]\<rparr>)
        (dm_example [[(1, 0), (3, 0)], [(2, 0), (5, 0), (1, 0)]])) = Inl (OddNumBlocks 3)"
proof -
  let ?self = "Self_init\<lparr>kernel_selection_mgr := [1 :: nat]\<rparr>"
  let ?dm = "dm_example [[(1, 0), (3, 0)], [(2, 0), (5, 0), (1, 0)]]"
  have h1: "kernel_selection_mgr ?self \<noteq> []" by simp
  have h2: "pending_bursts ?dm = [[(1, 0), (3, 0)]] @ [(2, 0), (5, 0), (1, 0)] # []"
    by (simp add: pending_bursts_def dm_example_def)
  have h3: "odd (length [(2 :: real, 0 :: real), (5, 0), (1, 0)])" by simp
  have h4: "fst (fold_bursts
        (statistic_and_Q_burst ext_example ?self (fst (create_computation_jobs ext_example ?dm ?self)))
        (Q_init (length (kernel_selection_mgr ?self))) [[(1, 0), (3, 0)]]) = None"
    by (simp add: Q_run_defs example_defs)
  show ?thesis
    using odd_burst_rejected [OF h1 h2 h3 h4] h1 h2 h3 h4 by simp
qed

text \<open>
  C7. One kernel and one burst of two blocks whose statistic job results are 1 and 3: the
  accumulated mean is 2 and the statistic normalisation of the instance doubles, so the
  normalised statistic is 4, but the vector that \<^verbatim>\<open>compute_statistic_and_Q\<close> returns
  holds 2, the accumulated mean itself.
\<close>

theorem statistic_vector_not_normalized:
  "map_sum id fst (fst (compute_statistic_and_Q ext_example
      (Self_init\<lparr>kernel_selection_mgr := [1]\<rparr>) (dm_example [[(1, 0), (3, 0)]]))) = Inr [2]
   \<and> online_mean [1, 3] = 2
   \<and> map (normalize_statistic ext_example) [online_mean [1, 3]] = [4]"
  by (simp add: Q_run_defs example_defs online_mean_def)

text \<open>
  C8 as stated fails: with the kernels 1 and 2 in the selection set, after a successful
  selection by maximising the MMD with a requested split ratio of 1, training mode is off but
  the split ratio of the data manager is still 1, not the 0 it had before the call.
\<close>

theorem select_kernel_ratio_counterexample:
  "fst (select_kernel ext_example sel_example (Self_init\<lparr>kernel_selection_mgr := [1, 2]\<rparr>)
          KSM_MAXIMIZE_MMD False 1 1 (1 / 20) [0 \<mapsto> 5] (dm_example [[(1, 0), (3, 0)]])) = None
   \<and> fst (snd (select_kernel ext_example sel_example (Self_init\<lparr>kernel_selection_mgr := [1, 2]\<rparr>)
          KSM_MAXIMIZE_MMD False 1 1 (1 / 20) [0 \<mapsto> 5] (dm_example [[(1, 0), (3, 0)]]))) 0 = Some 2
   \<and> train_mode (snd (snd (select_kernel ext_example sel_example
          (Self_init\<lparr>kernel_selection_mgr := [1, 2]\<rparr>)
          KSM_MAXIMIZE_MMD False 1 1 (1 / 20) [0 \<mapsto> 5] (dm_example [[(1, 0), (3, 0)]])))) = False
   \<and> train_test_ratio (snd (snd (select_kernel ext_example sel_example
          (Self_init\<lparr>kernel_selection_mgr := [1, 2]\<rparr>)
          KSM_MAXIMIZE_MMD False 1 1 (1 / 20) [0 \<mapsto> 5] (dm_example [[(1, 0), (3, 0)]])))) = 1
   \<and> train_test_ratio (dm_example [[(1, 0), (3, 0)]]) = 0"
  by (simp add: select_kernel_def make_policy_def policy_select_def sel_example_def
      set_train_mode_def set_train_test_ratio_def dm_example_def Self_init_def)

text \<open>
  C8, amended. When \<^verbatim>\<open>select_kernel\<close> returns, training mode is off. For the median
  heuristic the split ratio is set to 0 and the stream is reset before the policy runs, the
  policy has no access to the data manager, and on return the ratio is 0 and the stream is at
  its start. For every other supported method the split ratio is not written after the policy
  has selected: the policy runs with the requested ratio, and the data manager on return is
  the one the policy left, with training mode cleared.
\<close>

theorem select_kernel_train_mode_off:
  assumes "select_kernel ext sel self kmethod weighted_kernel ratio num_run alpha km dm
           = (None, km', dm')"
  shows "train_mode dm' = False
       \<and> (kmethod = KSM_MEDIAN_HEURISTIC \<longrightarrow>
            train_test_ratio dm' = 0 \<and> next_index dm' = 0
            \<and> (\<exists>distance dm2 selected.
                  make_policy ext sel self kmethod weighted_kernel num_run alpha
                    (set_train_mode True (set_train_test_ratio ratio dm))
                  = (Inr (MedianHeuristic (kernel_selection_mgr self) distance), dm2)
                  \<and> train_test_ratio dm2 = 0 \<and> next_index dm2 = 0
                  \<and> median_heuristic_select_kernel sel (kernel_selection_mgr self) distance
                    = Inr selected
                  \<and> km' = restore_kernel_at sel 0 (km(0 \<mapsto> selected))
                  \<and> dm' = set_train_mode False dm2))
       \<and> (kmethod \<noteq> KSM_MEDIAN_HEURISTIC \<longrightarrow>
            (\<exists>policy selected km1 dm3.
                  make_policy ext sel self kmethod weighted_kernel num_run alpha
                    (set_train_mode True (set_train_test_ratio ratio dm))
                  = (Inr policy, set_train_mode True (set_train_test_ratio ratio dm))
                  \<and> train_test_ratio (set_train_mode True (set_train_test_ratio ratio dm)) = ratio
                  \<and> policy_select_kernel sel policy self km
                      (set_train_mode True (set_train_test_ratio ratio dm))
                    = (Inr selected, km1, dm3)
                  \<and> km' = restore_kernel_at sel 0 (km1(0 \<mapsto> selected))
                  \<and> dm' = set_train_mode False dm3
                  \<and> train_test_ratio dm' = train_test_ratio dm3))"
proof -
  let ?dm1 = "set_train_mode True (set_train_test_ratio ratio dm)"
  obtain p dm2 where m: "make_policy ext sel self kmethod weighted_kernel num_run alpha ?dm1 = (p, dm2)"
    by (cases "make_policy ext sel self kmethod weighted_kernel num_run alpha ?dm1")
  from assms m obtain policy where p: "p = Inr policy"
    by (cases p) (auto simp: select_kernel_def Let_def)
  obtain q km1 dm3 where s: "policy_select sel policy self km dm2 = (q, km1, dm3)"
    by (cases "policy_select sel policy self km dm2")
  from assms m p s obtain selected where q: "q = Inr selected"
    by (cases q) (auto simp: select_kernel_def Let_def)
  have out: "km' = restore_kernel_at sel 0 (km1(0 \<mapsto> selected))" "dm' = set_train_mode False dm3"
    using assms m p s q by (simp_all add: select_kernel_def Let_def)
  have off: "train_mode dm' = False" "train_test_ratio dm' = train_test_ratio dm3"
    "next_index dm' = next_index dm3"
    using out(2) by (simp_all add: set_train_mode_def)
  have median: "train_test_ratio dm' = 0 \<and> next_index dm' = 0
            \<and> (\<exists>distance dm2 selected.
                  make_policy ext sel self kmethod weighted_kernel num_run alpha ?dm1
                  = (Inr (MedianHeuristic (kernel_selection_mgr self) distance), dm2)
                  \<and> train_test_ratio dm2 = 0 \<and> next_index dm2 = 0
                  \<and> median_heuristic_select_kernel sel (kernel_selection_mgr self) distance
                    = Inr selected
                  \<and> km' = restore_kernel_at sel 0 (km(0 \<mapsto> selected))
                  \<and> dm' = set_train_mode False dm2)"
    if k: "kmethod = KSM_MEDIAN_HEURISTIC"
  proof -
    obtain distance dmd where
      pol: "policy = MedianHeuristic (kernel_selection_mgr self) distance"
      and dm2: "dm2 = dm_reset (set_train_test_ratio 0 dmd)"
      using m [unfolded p] k
      by (auto simp: make_policy_def split: if_splits prod.splits sum.splits)
    have r: "train_test_ratio dm2 = 0" "next_index dm2 = 0"
      by (simp_all add: dm2 dm_reset_def set_train_test_ratio_def)
    have sel: "median_heuristic_select_kernel sel (kernel_selection_mgr self) distance = Inr selected"
      "km1 = km" "dm3 = dm2"
      using s q by (simp_all add: pol policy_select_def)
    show ?thesis
      using m p pol r sel out off by simp
  qed
  have other: "\<exists>policy selected km1 dm3.
                  make_policy ext sel self kmethod weighted_kernel num_run alpha ?dm1
                  = (Inr policy, ?dm1)
                  \<and> train_test_ratio ?dm1 = ratio
                  \<and> policy_select_kernel sel policy self km ?dm1 = (Inr selected, km1, dm3)
                  \<and> km' = restore_kernel_at sel 0 (km1(0 \<mapsto> selected))
                  \<and> dm' = set_train_mode False dm3
                  \<and> train_test_ratio dm' = train_test_ratio dm3"
    if k: "kmethod \<noteq> KSM_MEDIAN_HEURISTIC"
  proof -
    have same: "dm2 = ?dm1" and nm: "\<And>ks d. policy \<noteq> MedianHeuristic ks d"
      using m [unfolded p] k
      by (cases kmethod; auto simp: make_policy_def split: if_splits)+
    have "policy_select sel policy self km dm2 = policy_select_kernel sel policy self km dm2"
      using nm by (cases policy) (auto simp: policy_select_def)
    then have run: "policy_select_kernel sel policy self km ?dm1 = (Inr selected, km1, dm3)"
      using s q same by simp
    have "train_test_ratio ?dm1 = ratio"
      by (simp add: set_train_mode_def set_train_test_ratio_def)
    then show ?thesis
      using m p same run out off by blast
  qed
  show ?thesis using off(1) median other by blast
qed

theorem select_kernel_train_mode_off_witness:
  "select_kernel ext_example sel_example (Self_init\<lparr>kernel_selection_mgr := [1, 2]\<rparr>)
          KSM_MAXIMIZE_MMD False 1 1 (1 / 20) [0 \<mapsto> 5] (dm_example [[(1, 0), (3, 0)]])
     = (None, [0 \<mapsto> 2],
        (dm_example [[(1, 0), (3, 0)]])\<lparr>train_mode := False, train_test_ratio := 1\<rparr>)
   \<and> KSM_MAXIMIZE_MMD \<noteq> KSM_MEDIAN_HEURISTIC
   \<and> train_mode ((dm_example [[(1 :: real, 0 :: real), (3, 0)]])
        \<lparr>train_mode := False, train_test_ratio := 1\<rparr>) = False
   \<and> select_kernel ext_example sel_example (Self_init\<lparr>kernel_selection_mgr := [1, 2]\<rparr>)
          KSM_MEDIAN_HEURISTIC False 1 1 (1 / 20) [0 \<mapsto> 5] (dm_example [[(1, 0), (3, 0)]])
     = (None, [0 \<mapsto> 1], dm_example [[(1, 0), (3, 0)]])
   \<and> train_mode (dm_example [[(1 :: real, 0 :: real), (3, 0)]]) = False
   \<and> train_test_ratio (dm_example [[(1 :: real, 0 :: real), (3, 0)]]) = 0
   \<and> next_index (dm_example [[(1 :: real, 0 :: real), (3, 0)]]) = 0"
proof -
  let ?self = "Self_init\<lparr>kernel_selection_mgr := [1, 2 :: nat]\<rparr>"
  have h: "select_kernel ext_example sel_example ?self
          KSM_MAXIMIZE_MMD False 1 1 (1 / 20) [0 \<mapsto> 5] (dm_example [[(1, 0), (3, 0)]])
     = (None, [0 \<mapsto> 2],
        (dm_example [[(1, 0), (3, 0)]])\<lparr>train_mode := False, train_test_ratio := 1\<rparr>)"
    by (simp add: select_kernel_def make_policy_def policy_select_def sel_example_def
        set_train_mode_def set_train_test_ratio_def dm_example_def Self_init_def)
  have g: "select_kernel ext_example sel_example ?self
          KSM_MEDIAN_HEURISTIC False 1 1 (1 / 20) [0 \<mapsto> 5] (dm_example [[(1, 0), (3, 0)]])
     = (None, [0 \<mapsto> 1], dm_example [[(1, 0), (3, 0)]])"
    by (simp add: select_kernel_def make_policy_def policy_select_def compute_distance_def
        sel_example_def ext_example_def set_train_mode_def set_train_test_ratio_def
        set_blockwise_def dm_start_def dm_end_def dm_next_def dm_reset_def dm_example_def
        Self_init_def)
  have k: "KSM_MAXIMIZE_MMD \<noteq> KSM_MEDIAN_HEURISTIC" by simp
  note a = select_kernel_train_mode_off [OF h]
  note b = select_kernel_train_mode_off [OF g]
  show ?thesis
    using h g k a [THEN conjunct1] b [THEN conjunct1]
      b [THEN conjunct2, THEN conjunct1, rule_format, OF refl]
    by simp
qed

text \<open>
  C5. On a run that returns, over a stream whose number of blocks is in the range of the
  term counters, \<^verbatim>\<open>sample_null\<close> returns as many values as the configured number of null
  samples, and value \<open>j\<close> is the statistic normalisation of the arithmetic mean, over all
  blocks of all bursts of the stream, of the result of replicate \<open>j\<close> of the permutation job
  on the kernel matrix of the block.
\<close>

theorem sample_null_replicates:
  assumes "km 0 = Some kern"
    and "fst (sample_null ext self km dm) = Inr result"
    and "length (concat (pending_bursts dm)) < 2 ^ 31 - 1"
  shows "int (length result) = sint (num_null_samples self)
       \<and> (\<forall>j < length result.
            result ! j = normalize_statistic ext
              (arith_mean (stream_values ext kern
                 (WithinBlockPermutation ext (blocksize_at dm 0) (blocksize_at dm 1)
                    (statistic_type self) j) dm)))"
proof -
  let ?R = "nat (sint (num_null_samples self))"
  let ?pj = "snd (create_statistic_job ext dm self)"
  have pj: "?pj = WithinBlockPermutation ext (blocksize_at dm 0) (blocksize_at dm 1)
                    (statistic_type self)"
    by (simp add: create_statistic_job_def Let_def)
  obtain st where
    f: "fold_bursts (sample_null_burst ext self kern ?pj)
          (replicate ?R 0, replicate ?R 1) (pending_bursts dm) = (None, st)"
    and res: "result = map (normalize_statistic ext) (fst st)"
    and nn: "0 \<le> sint (num_null_samples self)"
    using sample_null_Inr [OF assms(2) assms(1)] by blast
  have inv: "length (fst st) = ?R"
    "\<And>i. i < ?R \<Longrightarrow> (fst st ! i, snd st ! i)
       = fold (\<lambda>x acc. accumulate acc x) (stream_values ext kern (?pj i) dm) (0, 1)"
    using fold_bursts_sample_null [OF f] by (simp_all add: stream_values_def)
  have val: "fst st ! i = arith_mean (stream_values ext kern (?pj i) dm)" if "i < ?R" for i
  proof -
    have "length (stream_values ext kern (?pj i) dm) < 2 ^ 31 - 1"
      using assms(3) by (simp add: length_stream_values)
    from online_mean_eq [OF this] arg_cong [OF inv(2) [OF that], of fst]
    show ?thesis by (simp add: online_mean_def)
  qed
  have "int (length result) = sint (num_null_samples self)"
    using res inv(1) nn by simp
  moreover have "result ! j = normalize_statistic ext
              (arith_mean (stream_values ext kern (?pj j) dm))" if "j < length result" for j
    using that res inv(1) val [of j] by simp
  ultimately show ?thesis unfolding pj by simp
qed


theorem sample_null_replicates_witness:
  "[0 \<mapsto> 1 :: nat] 0 = Some 1
   \<and> fst (sample_null ext_example (Self_init\<lparr>num_null_samples := 2\<rparr>)
          [0 \<mapsto> 1] (dm_example [[(1, 0), (2, 0)], [(6, 0)]])) = Inr [6, 8]
   \<and> length (concat (pending_bursts (dm_example [[(1, 0), (2, 0)], [(6, 0)]]))) < 2 ^ 31 - 1
   \<and> int (length [6, 8 :: real]) = sint (2 :: index_t)
   \<and> (6 :: real) = 2 * arith_mean [1, 2, 6]
   \<and> (8 :: real) = 2 * arith_mean [2, 3, 7]"
proof -
  let ?self = "Self_init\<lparr>num_null_samples := 2\<rparr> :: nat Self"
  let ?dm = "dm_example [[(1, 0), (2, 0)], [(6, 0)]]"
  have h1: "[0 \<mapsto> 1 :: nat] 0 = Some 1" by simp
  have h3: "length (concat (pending_bursts ?dm)) < 2 ^ 31 - 1"
    by (simp add: pending_bursts_def dm_example_def)
  have vs: "stream_values ext_example 1
              (WithinBlockPermutation ext_example (blocksize_at ?dm 0) (blocksize_at ?dm 1)
                 (statistic_type ?self) j) ?dm = [1 + real j, 2 + real j, 6 + real j]" for j
    by (simp add: stream_values_def burst_values_def pending_bursts_def dm_example_def
        ext_example_def)
  note t = sample_null_replicates [OF h1 example_null_run h3, unfolded vs]
  have "(6 :: real) = 2 * arith_mean [1, 2, 6]"
    using t [THEN conjunct2, rule_format, of 0] by (simp add: ext_example_def)
  moreover have "(8 :: real) = 2 * arith_mean [2, 3, 7]"
    using t [THEN conjunct2, rule_format, of 1] by (simp add: ext_example_def)
  ultimately show ?thesis
    using h1 h3 example_null_run t [THEN conjunct1] by simp
qed

text \<open>
  C3. On a run of \<^verbatim>\<open>compute_statistic_and_Q\<close> that returns, over a stream whose number of
  adjacent block pairs is in the range of the term counters, the matrix returned is symmetric
  on the indices of the kernels, entry \<open>(i, j)\<close> is the arithmetic mean, over the adjacent
  block pairs \<open>(2k, 2k+1)\<close> of all bursts, of the product of the differences of the
  statistics of kernel \<open>i\<close> and of kernel \<open>j\<close> on the pair, and entry \<open>(i, i)\<close> is the
  mean of the squared differences of kernel \<open>i\<close>.
\<close>

theorem Q_symmetric_running_mean:
  assumes "fst (compute_statistic_and_Q ext self dm) = Inr (stat, Q)"
    and "sum_list (map (\<lambda>b. length b div 2) (pending_bursts dm)) < 2 ^ 31 - 1"
  shows "\<forall>i < length (kernel_selection_mgr self). \<forall>j < length (kernel_selection_mgr self).
           Q (i, j) = Q (j, i)
           \<and> Q (i, j) = arith_mean
                (stream_Q_terms ext (fst (create_statistic_job ext dm self) 0)
                   (kernel_selection_mgr self ! i) (kernel_selection_mgr self ! j) dm)
           \<and> Q (i, i) = arith_mean
                (map (\<lambda>d. d * d)
                   (stream_pair_differences ext (fst (create_statistic_job ext dm self) 0)
                      (kernel_selection_mgr self ! i) dm))"
proof -
  let ?ks = "kernel_selection_mgr self"
  let ?sj = "fst (create_statistic_job ext dm self)"
  let ?T = "\<lambda>i j. stream_Q_terms ext (?sj 0) (?ks ! i) (?ks ! j) dm"
  obtain st where
    f: "fold_bursts (statistic_and_Q_burst ext self ?sj) (Q_init (length ?ks)) (pending_bursts dm)
        = (None, st)"
    and Q: "Q = Q_mat st"
    using compute_statistic_and_Q_Inr [OF assms(1)] by blast
  have init: "length (mmds (Q_init (length ?ks))) = length ?ks"
    "\<And>a b. Q_mat (Q_init (length ?ks)) (a, b) = 0"
    "\<And>a b. term_counters_Q (Q_init (length ?ks)) (a, b) = 1"
    by (simp_all add: Q_init_def)
  have low: "Q (i, j) = arith_mean (?T i j) \<and> Q (j, i) = Q (i, j)"
    if "i < length ?ks" "j \<le> i" for i j
  proof -
    have "(Q_mat st (i, j), term_counters_Q st (i, j))
          = fold (\<lambda>x a. accumulate a x) (?T i j) (0, 1)
          \<and> Q_mat st (j, i) = Q_mat st (i, j)"
      using fold_bursts_Q [OF f init(1) that] by (simp add: init stream_Q_terms_def)
    moreover have "length (?T i j) < 2 ^ 31 - 1"
      using assms(2) by (simp add: length_stream_Q_terms)
    ultimately show ?thesis
      using online_mean_eq [of "?T i j"] unfolding Q online_mean_def
      by (metis fst_conv)
  qed
  have all: "Q (i, j) = Q (j, i) \<and> Q (i, j) = arith_mean (?T i j)"
    if "i < length ?ks" "j < length ?ks" for i j
  proof (cases "j \<le> i")
    case True
    with low [OF that(1) True] show ?thesis by simp
  next
    case False
    then have "i \<le> j" by simp
    from low [OF that(2) this] show ?thesis
      by (simp add: stream_Q_terms_commute [of ext _ "?ks ! i"])
  qed
  have diag: "Q (i, i) = arith_mean (map (\<lambda>d. d * d)
                 (stream_pair_differences ext (?sj 0) (?ks ! i) dm))"
    if "i < length ?ks" for i
    using all [OF that that] by (simp add: stream_Q_terms_same)
  show ?thesis using all diag by blast
qed


theorem Q_symmetric_running_mean_witness:
  "sum_list (map (\<lambda>b. length b div 2)
      (pending_bursts (dm_example [[(1, 0), (3, 0)], [(2, 0), (5, 0), (1, 1), (1, 0)]])))
     < 2 ^ 31 - 1
   \<and> (0 :: nat) < length (kernel_selection_mgr (Self_init\<lparr>kernel_selection_mgr := [1, 2 :: nat]\<rparr>))
   \<and> (1 :: nat) < length (kernel_selection_mgr (Self_init\<lparr>kernel_selection_mgr := [1, 2 :: nat]\<rparr>))
   \<and> snd (projr (fst (compute_statistic_and_Q ext_example
          (Self_init\<lparr>kernel_selection_mgr := [1, 2]\<rparr>)
          (dm_example [[(1, 0), (3, 0)], [(2, 0), (5, 0), (1, 1), (1, 0)]])))) (1, 0)
       = arith_mean [8, 18, 2]
   \<and> snd (projr (fst (compute_statistic_and_Q ext_example
          (Self_init\<lparr>kernel_selection_mgr := [1, 2]\<rparr>)
          (dm_example [[(1, 0), (3, 0)], [(2, 0), (5, 0), (1, 1), (1, 0)]])))) (0, 1)
       = arith_mean [8, 18, 2]
   \<and> snd (projr (fst (compute_statistic_and_Q ext_example
          (Self_init\<lparr>kernel_selection_mgr := [1, 2]\<rparr>)
          (dm_example [[(1, 0), (3, 0)], [(2, 0), (5, 0), (1, 1), (1, 0)]])))) (1, 1)
       = arith_mean [16, 36, 4]"
proof -
  let ?self = "Self_init\<lparr>kernel_selection_mgr := [1, 2 :: nat]\<rparr>"
  let ?dm = "dm_example [[(1, 0), (3, 0)], [(2, 0), (5, 0), (1, 1), (1, 0)]]"
  have h2: "sum_list (map (\<lambda>b. length b div 2) (pending_bursts ?dm)) < 2 ^ 31 - 1"
    by (simp add: pending_bursts_def dm_example_def)
  have k: "(0 :: nat) < length (kernel_selection_mgr ?self)"
    "(1 :: nat) < length (kernel_selection_mgr ?self)"
    by simp_all
  have t10: "stream_Q_terms ext_example (fst (create_statistic_job ext_example ?dm ?self) 0)
               (kernel_selection_mgr ?self ! 1) (kernel_selection_mgr ?self ! 0) ?dm = [8, 18, 2]"
    by (simp add: stream_Q_terms_def Q_terms_def pair_differences_def burst_values_def
        pending_bursts_def dm_example_def ext_example_def create_statistic_job_def Self_init_def
        nat_eval)
  have d1: "map (\<lambda>d. d * d)
              (stream_pair_differences ext_example
                 (fst (create_statistic_job ext_example ?dm ?self) 0)
                 (kernel_selection_mgr ?self ! 1) ?dm) = [16, 36, 4]"
    by (simp add: stream_pair_differences_def pair_differences_def burst_values_def
        pending_bursts_def dm_example_def ext_example_def create_statistic_job_def Self_init_def
        nat_eval)
  note t = Q_symmetric_running_mean [OF example_Q_matrix_run h2, rule_format, OF k(2) k(1),
      unfolded t10 d1]
  show ?thesis using h2 k t by simp
qed

end
